theory Spec2Isabelle
  imports Main
begin

section \<open>Python values, errors and dictionaries\<close>

text \<open>
  A gate of \<^verbatim>\<open>quantumCircuit.py\<close> is a Python dictionary from field names to values;
  the values stored are the gate's name (a string) and its qubit indices (integers).
  Exceptions are values of the type \<open>error\<close>.
\<close>

datatype pyval = PInt int | PStr string

datatype error =
    AssertionError
  | IndexError
  | KeyError string
  | AttributeError string
  | NotImplementedError string
  | ValueError
  | QasmSyntaxError

type_synonym gate = "string \<rightharpoonup> pyval"

text \<open>\<^verbatim>\<open>d[k]\<close>: a missing key raises \<^verbatim>\<open>KeyError\<close>.\<close>

definition getitem :: "gate \<Rightarrow> string \<Rightarrow> error + pyval" where
  "getitem d k = (case d k of None \<Rightarrow> Inl (KeyError k) | Some v \<Rightarrow> Inr v)"

text \<open>\<^verbatim>\<open>len(lst) == len(set(lst))\<close>\<close>

definition is_unique :: "'a list \<Rightarrow> bool" where
  "is_unique lst = (length lst = card (set lst))"

section \<open>The circuit and its builder\<close>

text \<open>
  \<^verbatim>\<open>n_qubits\<close> starts at 0 and is only ever incremented, so it is a natural number;
  the qubit indices that callers pass to the builder are Python integers.
\<close>

record circuit =
  n_qubits :: nat
  gates :: "gate list"

definition new_circuit :: circuit where
  "new_circuit = \<lparr>n_qubits = 0, gates = []\<rparr>"

definition request_qubit :: "circuit \<Rightarrow> int \<times> circuit" where
  "request_qubit c =
     (let c' = c\<lparr>n_qubits := n_qubits c + 1\<rparr> in (int (n_qubits c') - 1, c'))"

text \<open>\<^verbatim>\<open>[self.request_qubit() for _ in range(n)]\<close>: \<^verbatim>\<open>range(n)\<close> is empty for \<open>n \<le> 0\<close>.\<close>

fun request_qubits_loop :: "nat \<Rightarrow> circuit \<Rightarrow> int list \<times> circuit" where
  "request_qubits_loop 0 c = ([], c)"
| "request_qubits_loop (Suc k) c =
     (case request_qubit c of (q, c1) \<Rightarrow>
        (case request_qubits_loop k c1 of (qs, c2) \<Rightarrow> (q # qs, c2)))"

definition request_qubits :: "int \<Rightarrow> circuit \<Rightarrow> int list \<times> circuit" where
  "request_qubits n c = request_qubits_loop (nat n) c"

text \<open>\<^verbatim>\<open>self.gates.append(g)\<close>\<close>

definition append_gate :: "gate \<Rightarrow> circuit \<Rightarrow> circuit" where
  "append_gate g c = c\<lparr>gates := gates c @ [g]\<rparr>"

text \<open>The dictionary literals of the builder.\<close>

definition single_qubit_gate :: "string \<Rightarrow> int \<Rightarrow> gate" where
  "single_qubit_gate nm target = [''name'' \<mapsto> PStr nm, ''target'' \<mapsto> PInt target]"

definition cnot_gate :: "int \<Rightarrow> int \<Rightarrow> gate" where
  "cnot_gate ctrl target =
     [''name'' \<mapsto> PStr ''CNOT'', ''ctrl'' \<mapsto> PInt ctrl, ''target'' \<mapsto> PInt target]"

definition tof_gate :: "int \<Rightarrow> int \<Rightarrow> int \<Rightarrow> gate" where
  "tof_gate c1 c2 target =
     [''name'' \<mapsto> PStr ''Tof'', ''ctrl1'' \<mapsto> PInt c1, ''ctrl2'' \<mapsto> PInt c2,
      ''target'' \<mapsto> PInt target]"

definition add_x :: "int \<Rightarrow> circuit \<Rightarrow> circuit" where
  "add_x target = append_gate (single_qubit_gate ''X'' target)"

definition add_h :: "int \<Rightarrow> circuit \<Rightarrow> circuit" where
  "add_h target = append_gate (single_qubit_gate ''HAD'' target)"

definition add_s :: "int \<Rightarrow> circuit \<Rightarrow> circuit" where
  "add_s target = append_gate (single_qubit_gate ''S'' target)"

definition add_t :: "int \<Rightarrow> circuit \<Rightarrow> circuit" where
  "add_t target = append_gate (single_qubit_gate ''T'' target)"

definition add_tdg :: "int \<Rightarrow> circuit \<Rightarrow> circuit" where
  "add_tdg target = append_gate (single_qubit_gate ''Tdg'' target)"

text \<open>A block of statements run in order, and a statement under \<^verbatim>\<open>if p:\<close>.\<close>

definition run_steps :: "(circuit \<Rightarrow> circuit) list \<Rightarrow> circuit \<Rightarrow> circuit" where
  "run_steps steps c = fold (\<lambda>f s. f s) steps c"

definition if_then :: "bool \<Rightarrow> (circuit \<Rightarrow> circuit) \<Rightarrow> circuit \<Rightarrow> circuit" where
  "if_then p f c = (if p then f c else c)"

definition add_cnot :: "int \<Rightarrow> int \<Rightarrow> bool \<Rightarrow> circuit \<Rightarrow> circuit" where
  "add_cnot ctrl target p =
     run_steps
       [if_then p (add_x ctrl),
        append_gate (cnot_gate ctrl target),
        if_then p (add_x ctrl)]"

definition add_cz :: "int \<Rightarrow> int \<Rightarrow> circuit \<Rightarrow> circuit" where
  "add_cz ctrl target =
     run_steps [add_h target, append_gate (cnot_gate ctrl target), add_h target]"

definition add_z :: "int \<Rightarrow> circuit \<Rightarrow> circuit" where
  "add_z target =
     run_steps [add_h target, append_gate (single_qubit_gate ''X'' target), add_h target]"

text \<open>
  \<^verbatim>\<open>add_toffoli\<close>: the assertion comes first; an exception leaves the circuit as it is
  at that moment, so the result is the outcome paired with the circuit.
\<close>

definition add_toffoli ::
  "int \<Rightarrow> int \<Rightarrow> int \<Rightarrow> bool \<Rightarrow> bool \<Rightarrow> bool \<Rightarrow> circuit \<Rightarrow> (error + unit) \<times> circuit" where
  "add_toffoli c1 c2 target p1 p2 clean c =
     (if \<not> is_unique [c1, c2, target] then (Inl AssertionError, c)
      else
        (Inr (),
         run_steps
           [if_then p1 (add_x c1),
            if_then p2 (add_x c2),
            (if clean then
               run_steps
                 [add_h target,
                  add_t target,
                  add_cnot c1 target False,
                  add_cnot c2 target False,
                  add_cnot target c2 False,
                  add_cnot target c1 False,
                  add_tdg c1,
                  add_tdg c2,
                  add_t target,
                  add_cnot target c1 False,
                  add_cnot target c2 False,
                  add_h target,
                  add_s c1]
             else append_gate (tof_gate c1 c2 target)),
            if_then p1 (add_x c1),
            if_then p2 (add_x c2)] c))"

text \<open>
  \<^verbatim>\<open>add_mcx\<close>: \<^verbatim>\<open>ps[0]\<close> and \<^verbatim>\<open>ps[1]\<close> raise \<^verbatim>\<open>IndexError\<close> on a list that is too
  short; the arguments of the call are evaluated before anything is appended.
\<close>

definition add_mcx ::
  "int list \<Rightarrow> int \<Rightarrow> bool list \<Rightarrow> bool \<Rightarrow> circuit \<Rightarrow> (error + unit) \<times> circuit" where
  "add_mcx cs target ps clean c =
     (if \<not> length cs \<le> 2 then (Inl AssertionError, c)
      else if length cs = 1 then
        (case ps of
           [] \<Rightarrow> (Inl IndexError, c)
         | p0 # _ \<Rightarrow> (Inr (), add_cnot (cs ! 0) target p0 c))
      else if length cs = 2 then
        (case ps of
           p0 # p1 # _ \<Rightarrow> add_toffoli (cs ! 0) (cs ! 1) target p0 p1 clean c
         | _ \<Rightarrow> (Inl IndexError, c))
      else (Inr (), c))"

text \<open>\<^verbatim>\<open>add_gate\<close> appends a copy of any dictionary.\<close>

definition add_gate :: "gate \<Rightarrow> circuit \<Rightarrow> circuit" where
  "add_gate g = append_gate g"

section \<open>Dependencies and the T count\<close>

definition deps_of :: "gate \<Rightarrow> error + pyval set" where
  "deps_of g =
     (case getitem g ''name'' of
        Inl e \<Rightarrow> Inl e
      | Inr nm \<Rightarrow>
          if nm = PStr ''CNOT'' then
            (case getitem g ''ctrl'' of
               Inl e \<Rightarrow> Inl e
             | Inr ctrl \<Rightarrow>
                 (case getitem g ''target'' of
                    Inl e \<Rightarrow> Inl e
                  | Inr target \<Rightarrow> Inr (insert target (insert ctrl {}))))
          else if nm = PStr ''Tof'' then
            (case getitem g ''ctrl1'' of
               Inl e \<Rightarrow> Inl e
             | Inr ctrl1 \<Rightarrow>
                 (case getitem g ''ctrl2'' of
                    Inl e \<Rightarrow> Inl e
                  | Inr ctrl2 \<Rightarrow>
                      (case getitem g ''target'' of
                         Inl e \<Rightarrow> Inl e
                       | Inr target \<Rightarrow>
                           Inr (insert target (insert ctrl2 (insert ctrl1 {}))))))
          else
            (case getitem g ''target'' of
               Inl e \<Rightarrow> Inl e
             | Inr target \<Rightarrow> Inr (insert target {})))"

text \<open>
  \<^verbatim>\<open>sum(1 for gate in self.gates if gate["name"] in ["T", "Tdg"])\<close>: the first gate
  without a name raises \<^verbatim>\<open>KeyError\<close>.
\<close>

fun num_t_gates :: "gate list \<Rightarrow> error + nat" where
  "num_t_gates [] = Inr 0"
| "num_t_gates (g # gs) =
     (case getitem g ''name'' of
        Inl e \<Rightarrow> Inl e
      | Inr nm \<Rightarrow>
          (case num_t_gates gs of
             Inl e \<Rightarrow> Inl e
           | Inr k \<Rightarrow> Inr ((if nm \<in> set [PStr ''T'', PStr ''Tdg''] then 1 else 0) + k)))"

definition num_t :: "circuit \<Rightarrow> error + nat" where
  "num_t c = num_t_gates (gates c)"

definition num_gates :: "circuit \<Rightarrow> nat" where
  "num_gates c = length (gates c)"

section \<open>Strings\<close>

text \<open>
  Python formats an integer in decimal, with a leading minus sign when it is negative
  (\<^verbatim>\<open>f"{n}"\<close>); a string is formatted as itself.
\<close>

definition digit_char :: "nat \<Rightarrow> char" where
  "digit_char d = ''0123456789'' ! d"

fun show_nat :: "nat \<Rightarrow> string" where
  "show_nat n =
     (if n < 10 then [digit_char n] else show_nat (n div 10) @ [digit_char (n mod 10)])"

declare show_nat.simps [simp del]

definition show_int :: "int \<Rightarrow> string" where
  "show_int i = (if i < 0 then CHR ''-'' # show_nat (nat (- i)) else show_nat (nat i))"

fun str_of :: "pyval \<Rightarrow> string" where
  "str_of (PInt i) = show_int i"
| "str_of (PStr s) = s"

text \<open>
  \<^verbatim>\<open>str.splitlines()\<close>: a line ends at \<^verbatim>\<open>\n\<close>, \<^verbatim>\<open>\r\<close>, \<^verbatim>\<open>\r\n\<close>, \<^verbatim>\<open>\v\<close>, \<^verbatim>\<open>\f\<close>,
  \<^verbatim>\<open>\x1c\<close>, \<^verbatim>\<open>\x1d\<close>, \<^verbatim>\<open>\x1e\<close> or \<^verbatim>\<open>\x85\<close>; the line ends are dropped, and a text
  that ends with a line end has no empty last line.
\<close>

definition is_linebreak :: "char \<Rightarrow> bool" where
  "is_linebreak c =
     (c \<in> set [CHR 0x0A, CHR 0x0B, CHR 0x0C, CHR 0x0D, CHR 0x1C, CHR 0x1D, CHR 0x1E, CHR 0x85])"

fun splitlines_from :: "string \<Rightarrow> string \<Rightarrow> string list" where
  "splitlines_from cur [] = (if cur = [] then [] else [cur])"
| "splitlines_from cur (c # cs) =
     (if c = CHR 0x0D then
        (case cs of
           [] \<Rightarrow> [cur]
         | d # ds \<Rightarrow>
             if d = CHR 0x0A then cur # splitlines_from [] ds
             else cur # splitlines_from [] cs)
      else if is_linebreak c then cur # splitlines_from [] cs
      else splitlines_from (cur @ [c]) cs)"

definition splitlines :: "string \<Rightarrow> string list" where
  "splitlines s = splitlines_from [] s"

section \<open>Export to quantum assembly\<close>

definition bind_err :: "error + 'a \<Rightarrow> ('a \<Rightarrow> error + 'b) \<Rightarrow> error + 'b" where
  "bind_err m f = (case m of Inl e \<Rightarrow> Inl e | Inr v \<Rightarrow> f v)"

text \<open>The text that one pass of the loop of \<^verbatim>\<open>to_qasm\<close> adds for a gate.\<close>

definition qasm_of_gate :: "gate \<Rightarrow> error + string" where
  "qasm_of_gate g =
     bind_err (getitem g ''name'') (\<lambda>nm.
       if nm = PStr ''Tof'' then
         bind_err (getitem g ''ctrl1'') (\<lambda>c1.
         bind_err (getitem g ''ctrl2'') (\<lambda>c2.
         bind_err (getitem g ''target'') (\<lambda>t.
           Inr (''ccx q['' @ str_of c1 @ ''], q['' @ str_of c2 @ ''], q['' @ str_of t
                @ ''];'' @ [CHR 0x0A]))))
       else if nm = PStr ''CNOT'' then
         bind_err (getitem g ''ctrl'') (\<lambda>c.
         bind_err (getitem g ''target'') (\<lambda>t.
           Inr (''cx q['' @ str_of c @ ''], q['' @ str_of t @ ''];'' @ [CHR 0x0A])))
       else if nm = PStr ''X'' then
         bind_err (getitem g ''target'') (\<lambda>t. Inr (''x q['' @ str_of t @ ''];'' @ [CHR 0x0A]))
       else if nm = PStr ''HAD'' then
         bind_err (getitem g ''target'') (\<lambda>t. Inr (''h q['' @ str_of t @ ''];'' @ [CHR 0x0A]))
       else if nm = PStr ''S'' then
         bind_err (getitem g ''target'') (\<lambda>t. Inr (''s q['' @ str_of t @ ''];'' @ [CHR 0x0A]))
       else if nm = PStr ''T'' then
         bind_err (getitem g ''target'') (\<lambda>t. Inr (''t q['' @ str_of t @ ''];'' @ [CHR 0x0A]))
       else if nm = PStr ''Tdg'' then
         bind_err (getitem g ''target'') (\<lambda>t. Inr (''tdg q['' @ str_of t @ ''];'' @ [CHR 0x0A]))
       else Inl (NotImplementedError (''Unsupported gate: '' @ str_of nm)))"

fun to_qasm_loop :: "gate list \<Rightarrow> string \<Rightarrow> error + string" where
  "to_qasm_loop [] qasm_str = Inr qasm_str"
| "to_qasm_loop (g # gs) qasm_str =
     bind_err (qasm_of_gate g) (\<lambda>l. to_qasm_loop gs (qasm_str @ l))"

definition qasm_header :: "nat \<Rightarrow> string" where
  "qasm_header n =
     ''OPENQASM 2.0;'' @ [CHR 0x0A]
     @ ''include '' @ [CHR 0x22] @ ''qelib1.inc'' @ [CHR 0x22] @ '';'' @ [CHR 0x0A]
     @ ''qreg q['' @ show_nat n @ ''];'' @ [CHR 0x0A]"

text \<open>
  \<^verbatim>\<open>to_qasm\<close>. With \<^verbatim>\<open>run_zx\<close> the text goes through the external optimizer, which is
  the parameter \<open>zx\<close> here; without it the text is returned as it was built.
\<close>

definition to_qasm :: "(string \<Rightarrow> error + string) \<Rightarrow> bool \<Rightarrow> circuit \<Rightarrow> error + string" where
  "to_qasm zx run_zx c =
     bind_err (to_qasm_loop (gates c) (qasm_header (n_qubits c))) (\<lambda>qasm_str.
       if run_zx then zx qasm_str else Inr qasm_str)"

section \<open>Import from quantum assembly\<close>

text \<open>
  \<^verbatim>\<open>from_qasm\<close> reads the circuit that the external parser returns: its number of
  qubits and its gates, each with a name and the attributes \<^verbatim>\<open>ctrl1\<close>, \<^verbatim>\<open>ctrl2\<close>,
  \<^verbatim>\<open>control\<close>, \<^verbatim>\<open>target\<close>. Reading an attribute that a gate does not have raises
  \<^verbatim>\<open>AttributeError\<close>.
\<close>

record zx_gate =
  zx_name :: string
  zx_attrs :: "string \<rightharpoonup> int"

record zx_circuit =
  zx_qubits :: nat
  zx_gates :: "zx_gate list"

definition getattr :: "zx_gate \<Rightarrow> string \<Rightarrow> error + int" where
  "getattr g a = (case zx_attrs g a of None \<Rightarrow> Inl (AttributeError a) | Some v \<Rightarrow> Inr v)"

text \<open>One pass of the loop of \<^verbatim>\<open>from_qasm\<close>: the builder call for a parsed gate.\<close>

definition replay_gate :: "zx_gate \<Rightarrow> circuit \<Rightarrow> error + circuit" where
  "replay_gate g c =
     (if zx_name g = ''Tof'' then
        bind_err (getattr g ''ctrl1'') (\<lambda>c1.
        bind_err (getattr g ''ctrl2'') (\<lambda>c2.
        bind_err (getattr g ''target'') (\<lambda>t.
          (case add_toffoli c1 c2 t False False False c of
             (Inl e, _) \<Rightarrow> Inl e
           | (Inr _, c') \<Rightarrow> Inr c'))))
      else if zx_name g = ''CNOT'' then
        bind_err (getattr g ''control'') (\<lambda>ctrl.
        bind_err (getattr g ''target'') (\<lambda>t. Inr (add_cnot ctrl t False c)))
      else if zx_name g = ''CZ'' then
        bind_err (getattr g ''control'') (\<lambda>ctrl.
        bind_err (getattr g ''target'') (\<lambda>t. Inr (add_cz ctrl t c)))
      else if zx_name g = ''Z'' then
        bind_err (getattr g ''target'') (\<lambda>t. Inr (add_z t c))
      else if zx_name g = ''X'' then
        bind_err (getattr g ''target'') (\<lambda>t. Inr (add_x t c))
      else if zx_name g = ''HAD'' then
        bind_err (getattr g ''target'') (\<lambda>t. Inr (add_h t c))
      else if zx_name g = ''S'' then
        bind_err (getattr g ''target'') (\<lambda>t. Inr (add_s t c))
      else if zx_name g = ''T'' then
        bind_err (getattr g ''target'') (\<lambda>t. Inr (add_t t c))
      else if zx_name g = ''Tdg'' then
        bind_err (getattr g ''target'') (\<lambda>t. Inr (add_tdg t c))
      else Inl (NotImplementedError (''Unsupported gate: '' @ zx_name g)))"

fun from_qasm_loop :: "zx_gate list \<Rightarrow> circuit \<Rightarrow> error + circuit" where
  "from_qasm_loop [] c = Inr c"
| "from_qasm_loop (g # gs) c = bind_err (replay_gate g c) (from_qasm_loop gs)"

text \<open>
  \<^verbatim>\<open>from_qasm\<close>, with the external parser \<^verbatim>\<open>zx.Circuit.from_qasm\<close> as the parameter
  \<open>parse\<close>.
\<close>

definition from_qasm :: "(string \<Rightarrow> error + zx_circuit) \<Rightarrow> string \<Rightarrow> error + circuit" where
  "from_qasm parse qasm =
     bind_err (parse qasm) (\<lambda>qc.
       from_qasm_loop (zx_gates qc) (snd (request_qubits (int (zx_qubits qc)) new_circuit)))"

section \<open>The assembly text format of the specification\<close>

text \<open>
  The gate kinds of the specification's data model, each with the dictionary that the
  builder of the source creates for it, and the line that the specification's text format
  gives it (\<^verbatim>\<open>ccx q[c1], q[c2], q[t];\<close>, \<^verbatim>\<open>cx q[c], q[t];\<close>, \<^verbatim>\<open>x q[t];\<close>, \<^verbatim>\<open>h q[t];\<close>,
  \<^verbatim>\<open>s q[t];\<close>, \<^verbatim>\<open>t q[t];\<close>, \<^verbatim>\<open>tdg q[t];\<close>). These follow the specification; the
  theorems compare them with \<open>to_qasm\<close> and \<open>from_qasm\<close> of the source.
\<close>

datatype gate_kind =
    K_Toffoli int int int
  | K_CNOT int int
  | K_X int
  | K_Hadamard int
  | K_S int
  | K_T int
  | K_Tdg int

fun record_of :: "gate_kind \<Rightarrow> gate" where
  "record_of (K_Toffoli c1 c2 t) = tof_gate c1 c2 t"
| "record_of (K_CNOT c t) = cnot_gate c t"
| "record_of (K_X t) = single_qubit_gate ''X'' t"
| "record_of (K_Hadamard t) = single_qubit_gate ''HAD'' t"
| "record_of (K_S t) = single_qubit_gate ''S'' t"
| "record_of (K_T t) = single_qubit_gate ''T'' t"
| "record_of (K_Tdg t) = single_qubit_gate ''Tdg'' t"

text \<open>The invariant of the data model: the qubits of a Toffoli record are pairwise distinct.\<close>

fun toffoli_distinct :: "gate_kind \<Rightarrow> bool" where
  "toffoli_distinct (K_Toffoli c1 c2 t) = (c1 \<noteq> c2 \<and> c1 \<noteq> t \<and> c2 \<noteq> t)"
| "toffoli_distinct _ = True"

fun spec_line :: "gate_kind \<Rightarrow> string" where
  "spec_line (K_Toffoli c1 c2 t) =
     ''ccx q['' @ show_int c1 @ ''], q['' @ show_int c2 @ ''], q['' @ show_int t @ ''];''"
| "spec_line (K_CNOT c t) = ''cx q['' @ show_int c @ ''], q['' @ show_int t @ ''];''"
| "spec_line (K_X t) = ''x q['' @ show_int t @ ''];''"
| "spec_line (K_Hadamard t) = ''h q['' @ show_int t @ ''];''"
| "spec_line (K_S t) = ''s q['' @ show_int t @ ''];''"
| "spec_line (K_T t) = ''t q['' @ show_int t @ ''];''"
| "spec_line (K_Tdg t) = ''tdg q['' @ show_int t @ ''];''"

definition spec_header :: "nat \<Rightarrow> string list" where
  "spec_header n =
     [''OPENQASM 2.0;'',
      ''include '' @ [CHR 0x22] @ ''qelib1.inc'' @ [CHR 0x22] @ '';'',
      ''qreg q['' @ show_nat n @ ''];'']"

definition spec_lines :: "nat \<Rightarrow> gate_kind list \<Rightarrow> string list" where
  "spec_lines n ks = spec_header n @ map spec_line ks"

text \<open>A text of lines, each ended by a newline.\<close>

definition unlines :: "string list \<Rightarrow> string" where
  "unlines ls = concat (map (\<lambda>l. l @ [CHR 0x0A]) ls)"

subsection \<open>The external parser\<close>

text \<open>
  Modelled from the spec: the parser \<^verbatim>\<open>zx.Circuit.from_qasm\<close> of the external library,
  which \<^verbatim>\<open>from_qasm\<close> calls and which is not part of the repository. The specification
  gives the text format (three header lines, then one line per gate in the seven forms
  above, qubits addressed by their integer index) and says that the import receives the
  register size and the parsed instructions in order; \<^verbatim>\<open>from_qasm\<close> reads each parsed
  gate's \<^verbatim>\<open>name\<close> (\<^verbatim>\<open>Tof\<close>, \<^verbatim>\<open>CNOT\<close>, \<^verbatim>\<open>X\<close>, \<^verbatim>\<open>HAD\<close>, \<^verbatim>\<open>S\<close>, \<^verbatim>\<open>T\<close>, \<^verbatim>\<open>Tdg\<close>) and its
  attributes \<^verbatim>\<open>ctrl1\<close>, \<^verbatim>\<open>ctrl2\<close>, \<^verbatim>\<open>control\<close>, \<^verbatim>\<open>target\<close>. The model parses exactly this
  format and rejects any other text.
\<close>

definition is_digit :: "char \<Rightarrow> bool" where
  "is_digit c = (c \<in> set ''0123456789'')"

definition digit_val :: "char \<Rightarrow> nat" where
  "digit_val c = of_char c - 48"

definition read_nat :: "string \<Rightarrow> (nat \<times> string) option" where
  "read_nat s =
     (let ds = takeWhile is_digit s in
      if ds = [] then None
      else Some (foldl (\<lambda>a c. 10 * a + digit_val c) 0 ds, dropWhile is_digit s))"

definition read_int :: "string \<Rightarrow> (int \<times> string) option" where
  "read_int s =
     (case s of
        [] \<Rightarrow> None
      | c # r \<Rightarrow>
          if c = CHR ''-'' then map_option (\<lambda>(n, r'). (- int n, r')) (read_nat r)
          else map_option (\<lambda>(n, r'). (int n, r')) (read_nat s))"

fun expect :: "string \<Rightarrow> string \<Rightarrow> string option" where
  "expect [] s = Some s"
| "expect (p # ps) [] = None"
| "expect (p # ps) (c # cs) = (if p = c then expect ps cs else None)"

text \<open>An operand \<^verbatim>\<open>q[i]\<close>.\<close>

definition read_qubit :: "string \<Rightarrow> (int \<times> string) option" where
  "read_qubit s =
     Option.bind (expect ''q['' s) (\<lambda>r.
     Option.bind (read_int r) (\<lambda>(i, r').
     map_option (\<lambda>r''. (i, r'')) (expect '']'' r')))"

text \<open>\<open>k\<close> operands separated by a comma and a space, then the closing semicolon.\<close>

fun read_operands :: "nat \<Rightarrow> string \<Rightarrow> int list option" where
  "read_operands 0 s = (if s = '';'' then Some [] else None)"
| "read_operands (Suc k) s =
     Option.bind (read_qubit s) (\<lambda>(i, r).
       if k = 0 then map_option (\<lambda>is. i # is) (read_operands 0 r)
       else Option.bind (expect '', '' r) (\<lambda>r'.
              map_option (\<lambda>is. i # is) (read_operands k r')))"

definition parse_gate_line :: "string \<Rightarrow> zx_gate option" where
  "parse_gate_line l =
     (case expect ''ccx '' l of
        Some r \<Rightarrow>
          (case read_operands 3 r of
             Some [c1, c2, t] \<Rightarrow>
               Some \<lparr>zx_name = ''Tof'',
                     zx_attrs = [''ctrl1'' \<mapsto> c1, ''ctrl2'' \<mapsto> c2, ''target'' \<mapsto> t]\<rparr>
           | _ \<Rightarrow> None)
      | None \<Rightarrow>
     (case expect ''cx '' l of
        Some r \<Rightarrow>
          (case read_operands 2 r of
             Some [c, t] \<Rightarrow>
               Some \<lparr>zx_name = ''CNOT'', zx_attrs = [''control'' \<mapsto> c, ''target'' \<mapsto> t]\<rparr>
           | _ \<Rightarrow> None)
      | None \<Rightarrow>
     (case List.find (\<lambda>(m, nm). expect m l \<noteq> None)
             [(''x '', ''X''), (''h '', ''HAD''), (''s '', ''S''), (''tdg '', ''Tdg''),
              (''t '', ''T'')] of
        Some (m, nm) \<Rightarrow>
          (case read_operands 1 (drop (length m) l) of
             Some [t] \<Rightarrow> Some \<lparr>zx_name = nm, zx_attrs = [''target'' \<mapsto> t]\<rparr>
           | _ \<Rightarrow> None)
      | None \<Rightarrow> None)))"

definition parse_qreg :: "string \<Rightarrow> nat option" where
  "parse_qreg l =
     Option.bind (expect ''qreg q['' l) (\<lambda>r.
     Option.bind (read_nat r) (\<lambda>(n, r'). if r' = ''];'' then Some n else None))"

fun parse_gate_lines :: "string list \<Rightarrow> zx_gate list option" where
  "parse_gate_lines [] = Some []"
| "parse_gate_lines (l # ls) =
     Option.bind (parse_gate_line l) (\<lambda>g.
       map_option (\<lambda>gs. g # gs) (parse_gate_lines ls))"

definition zx_from_qasm :: "string \<Rightarrow> error + zx_circuit" where
  "zx_from_qasm qasm =
     (case splitlines qasm of
        l1 # l2 # l3 # ls \<Rightarrow>
          if l1 = ''OPENQASM 2.0;''
             \<and> l2 = ''include '' @ [CHR 0x22] @ ''qelib1.inc'' @ [CHR 0x22] @ '';'' then
            (case parse_qreg l3 of
               None \<Rightarrow> Inl QasmSyntaxError
             | Some n \<Rightarrow>
                 (case parse_gate_lines ls of
                    None \<Rightarrow> Inl QasmSyntaxError
                  | Some gs \<Rightarrow> Inr \<lparr>zx_qubits = n, zx_gates = gs\<rparr>))
          else Inl QasmSyntaxError
      | _ \<Rightarrow> Inl QasmSyntaxError)"

text \<open>The parsed gate that stands for a gate kind.\<close>

fun parsed_of :: "gate_kind \<Rightarrow> zx_gate" where
  "parsed_of (K_Toffoli c1 c2 t) =
     \<lparr>zx_name = ''Tof'', zx_attrs = [''ctrl1'' \<mapsto> c1, ''ctrl2'' \<mapsto> c2, ''target'' \<mapsto> t]\<rparr>"
| "parsed_of (K_CNOT c t) =
     \<lparr>zx_name = ''CNOT'', zx_attrs = [''control'' \<mapsto> c, ''target'' \<mapsto> t]\<rparr>"
| "parsed_of (K_X t) = \<lparr>zx_name = ''X'', zx_attrs = [''target'' \<mapsto> t]\<rparr>"
| "parsed_of (K_Hadamard t) = \<lparr>zx_name = ''HAD'', zx_attrs = [''target'' \<mapsto> t]\<rparr>"
| "parsed_of (K_S t) = \<lparr>zx_name = ''S'', zx_attrs = [''target'' \<mapsto> t]\<rparr>"
| "parsed_of (K_T t) = \<lparr>zx_name = ''T'', zx_attrs = [''target'' \<mapsto> t]\<rparr>"
| "parsed_of (K_Tdg t) = \<lparr>zx_name = ''Tdg'', zx_attrs = [''target'' \<mapsto> t]\<rparr>"

section \<open>String operations of the logic front end\<close>

text \<open>
  The methods of Python's \<^verbatim>\<open>str\<close> that \<^verbatim>\<open>logicNetwork.py\<close> calls, on strings of
  characters below 256. \<^verbatim>\<open>strip()\<close> removes leading and trailing whitespace.
\<close>

definition is_space :: "char \<Rightarrow> bool" where
  "is_space c =
     (c \<in> set [CHR 0x09, CHR 0x0A, CHR 0x0B, CHR 0x0C, CHR 0x0D, CHR 0x1C, CHR 0x1D, CHR 0x1E,
               CHR 0x1F, CHR 0x20, CHR 0x85, CHR 0xA0])"

definition strip :: "string \<Rightarrow> string" where
  "strip s = rev (dropWhile is_space (rev (dropWhile is_space s)))"

text \<open>\<^verbatim>\<open>s.rstrip(chars)\<close>\<close>

definition rstrip :: "string \<Rightarrow> string \<Rightarrow> string" where
  "rstrip s chars = rev (dropWhile (\<lambda>c. c \<in> set chars) (rev s))"

definition startswith :: "string \<Rightarrow> string \<Rightarrow> bool" where
  "startswith s p = (take (length p) s = p)"

definition endswith :: "string \<Rightarrow> string \<Rightarrow> bool" where
  "endswith s p = (length p \<le> length s \<and> drop (length s - length p) s = p)"

text \<open>\<^verbatim>\<open>p in s\<close>\<close>

fun str_in :: "string \<Rightarrow> string \<Rightarrow> bool" where
  "str_in p [] = (p = [])"
| "str_in p (c # cs) = (startswith (c # cs) p \<or> str_in p cs)"

text \<open>\<^verbatim>\<open>s.split(sep)\<close>: an empty separator raises \<^verbatim>\<open>ValueError\<close>.\<close>

fun split_from :: "string \<Rightarrow> string \<Rightarrow> string \<Rightarrow> string list" where
  "split_from sep cur [] = [cur]"
| "split_from sep cur (c # cs) =
     (if sep \<noteq> [] \<and> startswith (c # cs) sep then
        cur # split_from sep [] (drop (length sep - 1) cs)
      else split_from sep (cur @ [c]) cs)"

definition str_split :: "string \<Rightarrow> string \<Rightarrow> error + string list" where
  "str_split s sep = (if sep = [] then Inl ValueError else Inr (split_from sep [] s))"

text \<open>\<^verbatim>\<open>s.replace(old, new)\<close>\<close>

fun replace_from :: "string \<Rightarrow> string \<Rightarrow> string \<Rightarrow> string" where
  "replace_from old new [] = []"
| "replace_from old new (c # cs) =
     (if old \<noteq> [] \<and> startswith (c # cs) old then
        new @ replace_from old new (drop (length old - 1) cs)
      else c # replace_from old new cs)"

definition replace :: "string \<Rightarrow> string \<Rightarrow> string \<Rightarrow> string" where
  "replace s old new =
     (if old = [] then new @ concat (map (\<lambda>c. c # new) s) else replace_from old new s)"

section \<open>Logic gates\<close>

text \<open>
  A \<^verbatim>\<open>LogicGate\<close> holds a reference to its \<^verbatim>\<open>data\<close> dictionary. Dictionaries are
  objects of a store; a reference is an index into it. The default value of the parameter
  \<^verbatim>\<open>data = {}\<close> of \<^verbatim>\<open>__init__\<close> is evaluated once, when the class is defined: it is the
  dictionary at \<open>default_data\<close> in \<open>initial_heap\<close>.
\<close>

type_synonym dict_ref = nat

type_synonym heap = "(string \<rightharpoonup> bool) list"

record logic_gate =
  gate_type :: string
  inputs :: "string list"
  "output" :: string
  data :: dict_ref

definition default_data :: dict_ref where
  "default_data = 0"

definition initial_heap :: heap where
  "initial_heap = [Map.empty]"

text \<open>A dictionary display \<^verbatim>\<open>{...}\<close> creates a new object.\<close>

definition new_dict :: "(string \<rightharpoonup> bool) \<Rightarrow> heap \<Rightarrow> dict_ref \<times> heap" where
  "new_dict d h = (length h, h @ [d])"

text \<open>\<^verbatim>\<open>r[k] = v\<close> on the dictionary that \<open>r\<close> refers to, and reading that dictionary.\<close>

definition dict_setitem :: "dict_ref \<Rightarrow> string \<Rightarrow> bool \<Rightarrow> heap \<Rightarrow> heap" where
  "dict_setitem r k v h = h[r := (h ! r)(k \<mapsto> v)]"

definition dict_at :: "heap \<Rightarrow> dict_ref \<Rightarrow> (string \<rightharpoonup> bool)" where
  "dict_at h r = h ! r"

text \<open>\<^verbatim>\<open>LogicGate(gate_type, inputs, output, data)\<close>; \<open>None\<close> is the call without \<^verbatim>\<open>data\<close>.\<close>

definition LogicGate :: "string \<Rightarrow> string list \<Rightarrow> string \<Rightarrow> dict_ref option \<Rightarrow> logic_gate" where
  "LogicGate gt ins out data_arg =
     \<lparr>gate_type = gt, inputs = ins, output = out,
      data = (case data_arg of None \<Rightarrow> default_data | Some r \<Rightarrow> r)\<rparr>"

definition is_and :: "logic_gate \<Rightarrow> bool" where
  "is_and g = (gate_type g = ''&'')"

text \<open>Unpacking into two names raises \<^verbatim>\<open>ValueError\<close> unless there are exactly two values.\<close>

fun unpack2 :: "'a list \<Rightarrow> error + ('a \<times> 'a)" where
  "unpack2 [a, b] = Inr (a, b)"
| "unpack2 _ = Inl ValueError"

text \<open>The loop \<^verbatim>\<open>for op in ["&", "|", "^"]\<close> of \<^verbatim>\<open>from_assignment\<close> and what follows it.\<close>

fun from_assignment_ops ::
  "string list \<Rightarrow> string \<Rightarrow> string \<Rightarrow> bool \<Rightarrow> heap \<Rightarrow> error + (logic_gate \<times> heap)" where
  "from_assignment_ops [] assign_to assign_from map_or h =
     Inr (LogicGate ''='' [replace assign_from ''~'' ''''] assign_to None, h)"
| "from_assignment_ops (op # ops) assign_to assign_from map_or h =
     (if str_in op assign_from then
        bind_err (str_split assign_from op) (\<lambda>parts.
        bind_err (unpack2 (map strip parts)) (\<lambda>(s1, s2).
          let p1 = str_in ''~'' s1;
              p2 = str_in ''~'' s2;
              s1' = replace s1 ''~'' '''';
              s2' = replace s2 ''~'' ''''
          in
            if map_or \<and> op = ''|'' then
              (case new_dict [''p1'' \<mapsto> \<not> p1, ''p2'' \<mapsto> \<not> p2, ''p3'' \<mapsto> True] h of
                 (r, h') \<Rightarrow> Inr (LogicGate ''&'' [s1', s2'] assign_to (Some r), h'))
            else
              (case new_dict [''p1'' \<mapsto> p1, ''p2'' \<mapsto> p2, ''p3'' \<mapsto> False] h of
                 (r, h') \<Rightarrow> Inr (LogicGate op [s1', s2'] assign_to (Some r), h'))))
      else from_assignment_ops ops assign_to assign_from map_or h)"

definition from_assignment :: "string \<Rightarrow> bool \<Rightarrow> heap \<Rightarrow> error + (logic_gate \<times> heap)" where
  "from_assignment assign_str map_or h =
     bind_err (str_split assign_str ''='') (\<lambda>parts.
     bind_err (unpack2 (map strip parts)) (\<lambda>(assign_to, assign_from).
       from_assignment_ops [''&'', ''|'', ''^''] assign_to assign_from map_or h))"

section \<open>Logic networks\<close>

text \<open>\<^verbatim>\<open>_get_list(lst_str, s)\<close>\<close>

definition get_list :: "string \<Rightarrow> string \<Rightarrow> error + string list" where
  "get_list lst_str s =
     bind_err (str_split (strip (replace lst_str s '''')) '','') (\<lambda>parts.
       Inr (map strip (filter (\<lambda>x. strip x \<noteq> '''') parts)))"

record logic_network =
  ntk_inputs :: "string list"
  ntk_outputs :: "string list"
  ntk_gates :: "string \<rightharpoonup> logic_gate"

text \<open>
  \<^verbatim>\<open>while not line.endswith(";"): line += lines[i].strip(); i += 1\<close>: reading past the
  last line raises \<^verbatim>\<open>IndexError\<close>. The result is the statement and the lines left.
\<close>

fun join_statement :: "string \<Rightarrow> string list \<Rightarrow> error + (string \<times> string list)" where
  "join_statement line [] = (if endswith line '';'' then Inr (line, []) else Inl IndexError)"
| "join_statement line (l # ls) =
     (if endswith line '';'' then Inr (line, l # ls) else join_statement (line @ strip l) ls)"

lemma join_statement_rest:
  "join_statement line ls = Inr (stmt, rest) \<Longrightarrow> length rest \<le> length ls"
proof (induction ls arbitrary: line)
  case Nil
  then show ?case by (auto split: if_splits)
next
  case (Cons l ls)
  show ?case
  proof (cases "endswith line '';''")
    case True
    with Cons.prems show ?thesis by simp
  next
    case False
    with Cons.prems have "join_statement (line @ strip l) ls = Inr (stmt, rest)"
      by simp
    from Cons.IH [OF this] show ?thesis by simp
  qed
qed

text \<open>The loop \<^verbatim>\<open>while i < len(lines)\<close> of \<^verbatim>\<open>from_verilog\<close>, on the lines from \<open>i\<close> on.\<close>

function from_verilog_loop ::
  "string list \<Rightarrow> logic_network \<Rightarrow> heap \<Rightarrow> error + (logic_network \<times> heap)" where
  "from_verilog_loop [] ntk h = Inr (ntk, h)"
| "from_verilog_loop (l # ls) ntk h =
     (if startswith (strip l) ''//'' \<or> strip l = '''' then from_verilog_loop ls ntk h
      else if startswith (strip l) ''endmodule'' then Inr (ntk, h)
      else
        (case join_statement (strip l) ls of
           Inl e \<Rightarrow> Inl e
         | Inr (stmt, rest) \<Rightarrow>
             bind_err
               (if startswith (rstrip stmt '';'') ''input'' then
                  bind_err (get_list (rstrip stmt '';'') ''input'') (\<lambda>names.
                    Inr (ntk\<lparr>ntk_inputs := ntk_inputs ntk @ names\<rparr>))
                else if startswith (rstrip stmt '';'') ''output'' then
                  bind_err (get_list (rstrip stmt '';'') ''output'') (\<lambda>names.
                    Inr (ntk\<lparr>ntk_outputs := ntk_outputs ntk @ names\<rparr>))
                else Inr ntk)
               (\<lambda>ntk1.
                  if startswith (rstrip stmt '';'') ''assign'' then
                    (case get_list (rstrip stmt '';'') ''assign'' of
                       Inl e \<Rightarrow> Inl e
                     | Inr [] \<Rightarrow> Inl IndexError
                     | Inr (a # _) \<Rightarrow>
                         (case from_assignment a True h of
                            Inl e \<Rightarrow> Inl e
                          | Inr (g, h') \<Rightarrow>
                              from_verilog_loop rest
                                (ntk1\<lparr>ntk_gates := (ntk_gates ntk1)(output g \<mapsto> g)\<rparr>) h'))
                  else from_verilog_loop rest ntk1 h)))"
  by pat_completeness auto
termination
  by (relation "measure (\<lambda>(ls, ntk, h). length ls)")
    (auto dest: join_statement_rest simp: less_Suc_eq_le)

definition from_verilog :: "string \<Rightarrow> heap \<Rightarrow> error + (logic_network \<times> heap)" where
  "from_verilog verilog_str h =
     from_verilog_loop (splitlines verilog_str)
       \<lparr>ntk_inputs = [], ntk_outputs = [], ntk_gates = Map.empty\<rparr> h"

section \<open>Circuits made by the builder\<close>

text \<open>
  The circuits that the builder operations make from the empty circuit (every operation
  of the class but \<^verbatim>\<open>add_gate\<close>, which appends any dictionary given to it). A call that
  fails leaves the circuit it reached.
\<close>

inductive built :: "circuit \<Rightarrow> bool" where
  built_new: "built new_circuit"
| built_request_qubit: "built c \<Longrightarrow> built (snd (request_qubit c))"
| built_x: "built c \<Longrightarrow> built (add_x target c)"
| built_h: "built c \<Longrightarrow> built (add_h target c)"
| built_s: "built c \<Longrightarrow> built (add_s target c)"
| built_t: "built c \<Longrightarrow> built (add_t target c)"
| built_tdg: "built c \<Longrightarrow> built (add_tdg target c)"
| built_cnot: "built c \<Longrightarrow> built (add_cnot ctrl target p c)"
| built_cz: "built c \<Longrightarrow> built (add_cz ctrl target c)"
| built_z: "built c \<Longrightarrow> built (add_z target c)"
| built_toffoli: "built c \<Longrightarrow> built (snd (add_toffoli c1 c2 target p1 p2 clean c))"
| built_mcx: "built c \<Longrightarrow> built (snd (add_mcx cs target ps clean c))"

text \<open>The circuit's records are those of the gate kinds \<open>ks\<close>, Toffoli qubits distinct.\<close>

definition records_of_kinds :: "circuit \<Rightarrow> gate_kind list \<Rightarrow> bool" where
  "records_of_kinds c ks = (gates c = map record_of ks \<and> list_all toffoli_distinct ks)"

section \<open>Basic facts\<close>

lemma is_unique_distinct: "is_unique xs = distinct xs"
  by (metis is_unique_def distinct_card card_distinct)

lemma run_steps_Nil: "run_steps [] c = c"
  by (simp add: run_steps_def)

lemma run_steps_Cons: "run_steps (f # fs) c = run_steps fs (f c)"
  by (simp add: run_steps_def)

lemmas builder_defs = run_steps_Nil run_steps_Cons if_then_def add_cnot_def append_gate_def
  add_x_def add_h_def add_t_def add_tdg_def add_s_def

lemma num_t_gates_append:
  "num_t_gates (xs @ ys) =
     (case num_t_gates xs of
        Inl e \<Rightarrow> Inl e
      | Inr a \<Rightarrow> (case num_t_gates ys of Inl e \<Rightarrow> Inl e | Inr b \<Rightarrow> Inr (a + b)))"
  by (induction xs) (auto split: sum.splits)

lemma name_single [simp]: "getitem (single_qubit_gate nm t) ''name'' = Inr (PStr nm)"
  by (simp add: getitem_def single_qubit_gate_def)

lemma name_cnot [simp]: "getitem (cnot_gate a b) ''name'' = Inr (PStr ''CNOT'')"
  by (simp add: getitem_def cnot_gate_def)

lemma name_tof [simp]: "getitem (tof_gate a b t) ''name'' = Inr (PStr ''Tof'')"
  by (simp add: getitem_def tof_gate_def)

lemma add_toffoli_clean_gates:
  assumes "c1 \<noteq> c2" "c1 \<noteq> target" "c2 \<noteq> target"
  shows "add_toffoli c1 c2 target False False True c =
      (Inr (), c\<lparr>gates := gates c @
        [single_qubit_gate ''HAD'' target,
         single_qubit_gate ''T'' target,
         cnot_gate c1 target,
         cnot_gate c2 target,
         cnot_gate target c2,
         cnot_gate target c1,
         single_qubit_gate ''Tdg'' c1,
         single_qubit_gate ''Tdg'' c2,
         single_qubit_gate ''T'' target,
         cnot_gate target c1,
         cnot_gate target c2,
         single_qubit_gate ''HAD'' target,
         single_qubit_gate ''S'' c1]\<rparr>)"
  using assms by (simp add: add_toffoli_def is_unique_distinct builder_defs)

lemma num_t_clean:
  "num_t_gates
     [single_qubit_gate ''HAD'' target,
      single_qubit_gate ''T'' target,
      cnot_gate c1 target,
      cnot_gate c2 target,
      cnot_gate target c2,
      cnot_gate target c1,
      single_qubit_gate ''Tdg'' c1,
      single_qubit_gate ''Tdg'' c2,
      single_qubit_gate ''T'' target,
      cnot_gate target c1,
      cnot_gate target c2,
      single_qubit_gate ''HAD'' target,
      single_qubit_gate ''S'' c1] = Inr 4"
  by simp

section \<open>The Toffoli builder\<close>

text \<open>
  Claim C1. For pairwise distinct \<open>c1\<close>, \<open>c2\<close>, \<open>target\<close>, the call
  \<^verbatim>\<open>add_toffoli(c1, c2, target, p1=False, p2=False, clean=True)\<close> succeeds and appends
  exactly the thirteen records H(target); T(target); CNOT(c1,target); CNOT(c2,target);
  CNOT(target,c2); CNOT(target,c1); Tdg(c1); Tdg(c2); T(target); CNOT(target,c1);
  CNOT(target,c2); H(target); S(c1), in this order, to the gates already there; the number
  of gates grows by 13 and the T count (records named T or Tdg) grows by exactly 4. Each
  record is written out as the dictionary of the source: its name and its qubit fields.
\<close>

theorem add_toffoli_clean:
  assumes "c1 \<noteq> c2" "c1 \<noteq> target" "c2 \<noteq> target"
  shows "add_toffoli c1 c2 target False False True c =
      (Inr (), c\<lparr>gates := gates c @
        [[''name'' \<mapsto> PStr ''HAD'', ''target'' \<mapsto> PInt target],
         [''name'' \<mapsto> PStr ''T'', ''target'' \<mapsto> PInt target],
         [''name'' \<mapsto> PStr ''CNOT'', ''ctrl'' \<mapsto> PInt c1, ''target'' \<mapsto> PInt target],
         [''name'' \<mapsto> PStr ''CNOT'', ''ctrl'' \<mapsto> PInt c2, ''target'' \<mapsto> PInt target],
         [''name'' \<mapsto> PStr ''CNOT'', ''ctrl'' \<mapsto> PInt target, ''target'' \<mapsto> PInt c2],
         [''name'' \<mapsto> PStr ''CNOT'', ''ctrl'' \<mapsto> PInt target, ''target'' \<mapsto> PInt c1],
         [''name'' \<mapsto> PStr ''Tdg'', ''target'' \<mapsto> PInt c1],
         [''name'' \<mapsto> PStr ''Tdg'', ''target'' \<mapsto> PInt c2],
         [''name'' \<mapsto> PStr ''T'', ''target'' \<mapsto> PInt target],
         [''name'' \<mapsto> PStr ''CNOT'', ''ctrl'' \<mapsto> PInt target, ''target'' \<mapsto> PInt c1],
         [''name'' \<mapsto> PStr ''CNOT'', ''ctrl'' \<mapsto> PInt target, ''target'' \<mapsto> PInt c2],
         [''name'' \<mapsto> PStr ''HAD'', ''target'' \<mapsto> PInt target],
         [''name'' \<mapsto> PStr ''S'', ''target'' \<mapsto> PInt c1]]\<rparr>)
    \<and> num_gates (snd (add_toffoli c1 c2 target False False True c)) = num_gates c + 13
    \<and> (\<forall>k. num_t c = Inr k \<longrightarrow>
          num_t (snd (add_toffoli c1 c2 target False False True c)) = Inr (k + 4))"
proof -
  have records:
    "[[''name'' \<mapsto> PStr ''HAD'', ''target'' \<mapsto> PInt target],
      [''name'' \<mapsto> PStr ''T'', ''target'' \<mapsto> PInt target],
      [''name'' \<mapsto> PStr ''CNOT'', ''ctrl'' \<mapsto> PInt c1, ''target'' \<mapsto> PInt target],
      [''name'' \<mapsto> PStr ''CNOT'', ''ctrl'' \<mapsto> PInt c2, ''target'' \<mapsto> PInt target],
      [''name'' \<mapsto> PStr ''CNOT'', ''ctrl'' \<mapsto> PInt target, ''target'' \<mapsto> PInt c2],
      [''name'' \<mapsto> PStr ''CNOT'', ''ctrl'' \<mapsto> PInt target, ''target'' \<mapsto> PInt c1],
      [''name'' \<mapsto> PStr ''Tdg'', ''target'' \<mapsto> PInt c1],
      [''name'' \<mapsto> PStr ''Tdg'', ''target'' \<mapsto> PInt c2],
      [''name'' \<mapsto> PStr ''T'', ''target'' \<mapsto> PInt target],
      [''name'' \<mapsto> PStr ''CNOT'', ''ctrl'' \<mapsto> PInt target, ''target'' \<mapsto> PInt c1],
      [''name'' \<mapsto> PStr ''CNOT'', ''ctrl'' \<mapsto> PInt target, ''target'' \<mapsto> PInt c2],
      [''name'' \<mapsto> PStr ''HAD'', ''target'' \<mapsto> PInt target],
      [''name'' \<mapsto> PStr ''S'', ''target'' \<mapsto> PInt c1]] =
     [single_qubit_gate ''HAD'' target,
      single_qubit_gate ''T'' target,
      cnot_gate c1 target,
      cnot_gate c2 target,
      cnot_gate target c2,
      cnot_gate target c1,
      single_qubit_gate ''Tdg'' c1,
      single_qubit_gate ''Tdg'' c2,
      single_qubit_gate ''T'' target,
      cnot_gate target c1,
      cnot_gate target c2,
      single_qubit_gate ''HAD'' target,
      single_qubit_gate ''S'' c1]"
    by (simp add: single_qubit_gate_def cnot_gate_def)
  show ?thesis
    unfolding records add_toffoli_clean_gates [OF assms]
    by (simp add: num_gates_def num_t_def num_t_gates_append num_t_clean
        del: num_t_gates.simps)
qed

theorem add_toffoli_clean_witness:
  "(0::int) \<noteq> 1 \<and> (0::int) \<noteq> 2 \<and> (1::int) \<noteq> 2 \<and>
   add_toffoli 0 1 2 False False True
     \<lparr>n_qubits = 3, gates = [[''name'' \<mapsto> PStr ''T'', ''target'' \<mapsto> PInt 0]]\<rparr> =
      (Inr (), \<lparr>n_qubits = 3, gates =
        [[''name'' \<mapsto> PStr ''T'', ''target'' \<mapsto> PInt 0],
         [''name'' \<mapsto> PStr ''HAD'', ''target'' \<mapsto> PInt 2],
         [''name'' \<mapsto> PStr ''T'', ''target'' \<mapsto> PInt 2],
         [''name'' \<mapsto> PStr ''CNOT'', ''ctrl'' \<mapsto> PInt 0, ''target'' \<mapsto> PInt 2],
         [''name'' \<mapsto> PStr ''CNOT'', ''ctrl'' \<mapsto> PInt 1, ''target'' \<mapsto> PInt 2],
         [''name'' \<mapsto> PStr ''CNOT'', ''ctrl'' \<mapsto> PInt 2, ''target'' \<mapsto> PInt 1],
         [''name'' \<mapsto> PStr ''CNOT'', ''ctrl'' \<mapsto> PInt 2, ''target'' \<mapsto> PInt 0],
         [''name'' \<mapsto> PStr ''Tdg'', ''target'' \<mapsto> PInt 0],
         [''name'' \<mapsto> PStr ''Tdg'', ''target'' \<mapsto> PInt 1],
         [''name'' \<mapsto> PStr ''T'', ''target'' \<mapsto> PInt 2],
         [''name'' \<mapsto> PStr ''CNOT'', ''ctrl'' \<mapsto> PInt 2, ''target'' \<mapsto> PInt 0],
         [''name'' \<mapsto> PStr ''CNOT'', ''ctrl'' \<mapsto> PInt 2, ''target'' \<mapsto> PInt 1],
         [''name'' \<mapsto> PStr ''HAD'', ''target'' \<mapsto> PInt 2],
         [''name'' \<mapsto> PStr ''S'', ''target'' \<mapsto> PInt 0]]\<rparr>)
   \<and> num_t \<lparr>n_qubits = 3, gates = [[''name'' \<mapsto> PStr ''T'', ''target'' \<mapsto> PInt 0]]\<rparr> = Inr 1
   \<and> num_t (snd (add_toffoli 0 1 2 False False True
              \<lparr>n_qubits = 3, gates = [[''name'' \<mapsto> PStr ''T'', ''target'' \<mapsto> PInt 0]]\<rparr>)) = Inr 5"
  using add_toffoli_clean [of 0 1 2
      "\<lparr>n_qubits = 3, gates = [[''name'' \<mapsto> PStr ''T'', ''target'' \<mapsto> PInt 0]]\<rparr>"]
  by (simp add: num_t_def getitem_def)

text \<open>
  Claim C3. When at least two of \<open>c1\<close>, \<open>c2\<close>, \<open>target\<close> are equal, \<^verbatim>\<open>add_toffoli\<close>
  fails with the assertion on duplicate qubits, whatever \<open>p1\<close>, \<open>p2\<close> and \<open>clean\<close> are,
  and the circuit after the failure is the circuit before the call: the check runs before
  any gate is appended.
\<close>

theorem add_toffoli_duplicate:
  assumes "c1 = c2 \<or> c1 = target \<or> c2 = target"
  shows "add_toffoli c1 c2 target p1 p2 clean c = (Inl AssertionError, c)"
  using assms by (auto simp add: add_toffoli_def is_unique_distinct)

theorem add_toffoli_duplicate_witness:
  "add_toffoli 0 0 1 True False True \<lparr>n_qubits = 2, gates = [cnot_gate 0 1]\<rparr>
     = (Inl AssertionError, \<lparr>n_qubits = 2, gates = [cnot_gate 0 1]\<rparr>)
   \<and> add_toffoli 0 1 0 False False False \<lparr>n_qubits = 2, gates = [cnot_gate 0 1]\<rparr>
     = (Inl AssertionError, \<lparr>n_qubits = 2, gates = [cnot_gate 0 1]\<rparr>)
   \<and> add_toffoli 1 0 0 False True False \<lparr>n_qubits = 2, gates = [cnot_gate 0 1]\<rparr>
     = (Inl AssertionError, \<lparr>n_qubits = 2, gates = [cnot_gate 0 1]\<rparr>)"
  using
    add_toffoli_duplicate [of 0 0 1 True False True "\<lparr>n_qubits = 2, gates = [cnot_gate 0 1]\<rparr>"]
    add_toffoli_duplicate [of 0 1 0 False False False "\<lparr>n_qubits = 2, gates = [cnot_gate 0 1]\<rparr>"]
    add_toffoli_duplicate [of 1 0 0 False True False "\<lparr>n_qubits = 2, gates = [cnot_gate 0 1]\<rparr>"]
  by simp

text \<open>
  Claim C4. A negative control is an X on the control before and after the core gate:
  \<^verbatim>\<open>add_cnot(control, target, p)\<close> appends X(control), CNOT(control,target), X(control)
  (three gates) when \<open>p\<close> is true and the single CNOT when \<open>p\<close> is false; and, for pairwise
  distinct qubits, \<^verbatim>\<open>add_toffoli(c1, c2, t, p1=True, p2=False, clean=False)\<close> appends
  X(c1), Toffoli(c1,c2,t), X(c1) in that order. Each record is written out as the
  dictionary of the source: its name and its qubit fields.
\<close>

theorem negative_control_polarity:
  "add_cnot ctrl target True c =
     c\<lparr>gates := gates c @
       [[''name'' \<mapsto> PStr ''X'', ''target'' \<mapsto> PInt ctrl],
        [''name'' \<mapsto> PStr ''CNOT'', ''ctrl'' \<mapsto> PInt ctrl, ''target'' \<mapsto> PInt target],
        [''name'' \<mapsto> PStr ''X'', ''target'' \<mapsto> PInt ctrl]]\<rparr>
   \<and> num_gates (add_cnot ctrl target True c) = num_gates c + 3
   \<and> add_cnot ctrl target False c =
     c\<lparr>gates := gates c @
       [[''name'' \<mapsto> PStr ''CNOT'', ''ctrl'' \<mapsto> PInt ctrl, ''target'' \<mapsto> PInt target]]\<rparr>
   \<and> num_gates (add_cnot ctrl target False c) = num_gates c + 1
   \<and> (c1 \<noteq> c2 \<and> c1 \<noteq> t \<and> c2 \<noteq> t \<longrightarrow>
       add_toffoli c1 c2 t True False False c =
         (Inr (), c\<lparr>gates := gates c @
           [[''name'' \<mapsto> PStr ''X'', ''target'' \<mapsto> PInt c1],
            [''name'' \<mapsto> PStr ''Tof'', ''ctrl1'' \<mapsto> PInt c1, ''ctrl2'' \<mapsto> PInt c2,
            ''target'' \<mapsto> PInt t],
            [''name'' \<mapsto> PStr ''X'', ''target'' \<mapsto> PInt c1]]\<rparr>))"
  by (simp add: add_toffoli_def is_unique_distinct builder_defs num_gates_def
      single_qubit_gate_def cnot_gate_def tof_gate_def)

theorem negative_control_polarity_witness:
  "add_toffoli 0 1 2 True False False \<lparr>n_qubits = 3, gates = []\<rparr> =
     (Inr (), \<lparr>n_qubits = 3, gates =
        [[''name'' \<mapsto> PStr ''X'', ''target'' \<mapsto> PInt 0],
         [''name'' \<mapsto> PStr ''Tof'', ''ctrl1'' \<mapsto> PInt 0, ''ctrl2'' \<mapsto> PInt 1,
            ''target'' \<mapsto> PInt 2],
         [''name'' \<mapsto> PStr ''X'', ''target'' \<mapsto> PInt 0]]\<rparr>)
   \<and> add_cnot 0 1 True \<lparr>n_qubits = 3, gates = []\<rparr> =
     \<lparr>n_qubits = 3, gates =
        [[''name'' \<mapsto> PStr ''X'', ''target'' \<mapsto> PInt 0],
         [''name'' \<mapsto> PStr ''CNOT'', ''ctrl'' \<mapsto> PInt 0, ''target'' \<mapsto> PInt 1],
         [''name'' \<mapsto> PStr ''X'', ''target'' \<mapsto> PInt 0]]\<rparr>
   \<and> add_cnot 0 1 False \<lparr>n_qubits = 3, gates = []\<rparr> =
     \<lparr>n_qubits = 3, gates =
        [[''name'' \<mapsto> PStr ''CNOT'', ''ctrl'' \<mapsto> PInt 0, ''target'' \<mapsto> PInt 1]]\<rparr>"
  using negative_control_polarity [of 0 1 "\<lparr>n_qubits = 3, gates = []\<rparr>" 0 1 2]
  by simp

section \<open>The multi-controlled X\<close>

lemma add_mcx_one_control:
  "add_mcx [ctrl] target (p # ps) clean c = (Inr (), add_cnot ctrl target p c)"
  by (simp add: add_mcx_def)

lemma add_mcx_two_controls:
  "add_mcx [c1, c2] target (p1 # p2 # ps) clean c = add_toffoli c1 c2 target p1 p2 clean c"
  by (simp add: add_mcx_def)

text \<open>
  Claim C6. \<^verbatim>\<open>add_mcx\<close> with one control passes \<^verbatim>\<open>ps[0]\<close> to \<^verbatim>\<open>add_cnot\<close>
  (\<open>add_mcx_one_control\<close>) and with two controls passes \<^verbatim>\<open>ps[0]\<close>, \<^verbatim>\<open>ps[1]\<close> to
  \<^verbatim>\<open>add_toffoli\<close> (\<open>add_mcx_two_controls\<close>). The claim adds that \<^verbatim>\<open>add_mcx([c], target)\<close>
  with the default polarities appends one CNOT(c, target) and does not fail. The default
  of the signature is the empty list, and \<^verbatim>\<open>ps[0]\<close> is read from it: for every control
  \<open>ctrl\<close>, target and circuit the call raises \<^verbatim>\<open>IndexError\<close> and appends nothing.
\<close>

theorem add_mcx_default_polarities:
  "add_mcx [ctrl] target [] clean c = (Inl IndexError, c)"
  by (simp add: add_mcx_def)

text \<open>
  Claim C7. With more than two controls \<^verbatim>\<open>add_mcx\<close> fails with the assertion on the
  number of controls, for every target, polarity list and \<open>clean\<close>, and the circuit is
  unchanged.
\<close>

theorem add_mcx_unsupported_arity:
  assumes "length cs > 2"
  shows "add_mcx cs target ps clean c = (Inl AssertionError, c)"
  using assms by (simp add: add_mcx_def)

theorem add_mcx_unsupported_arity_witness:
  "add_mcx [0, 1, 2] 3 [False, True, False] True \<lparr>n_qubits = 4, gates = [cnot_gate 0 1]\<rparr>
     = (Inl AssertionError, \<lparr>n_qubits = 4, gates = [cnot_gate 0 1]\<rparr>)"
  using add_mcx_unsupported_arity [of "[0, 1, 2]" 3 "[False, True, False]" True
      "\<lparr>n_qubits = 4, gates = [cnot_gate 0 1]\<rparr>"]
  by simp

section \<open>Dependencies of a gate\<close>

text \<open>
  Claim C8. \<^verbatim>\<open>deps_of\<close> takes the gate record alone, so its result is a function of the
  record's content and not of its place in the sequence: equal records at two positions
  have equal results. On a CNOT record it returns the set of control and target; on a
  Toffoli record with pairwise distinct qubits the three-element set of both controls and
  the target; on a record of a single-qubit kind (X, HAD, S, T, Tdg) the one-element set
  of the target.
\<close>

theorem deps_of_content:
  "deps_of (cnot_gate ctrl target) = Inr {PInt ctrl, PInt target}
   \<and> (c1 \<noteq> c2 \<and> c1 \<noteq> t \<and> c2 \<noteq> t \<longrightarrow>
        deps_of (tof_gate c1 c2 t) = Inr {PInt c1, PInt c2, PInt t}
        \<and> card {PInt c1, PInt c2, PInt t} = 3)
   \<and> (nm \<in> set [''X'', ''HAD'', ''S'', ''T'', ''Tdg''] \<longrightarrow>
        deps_of (single_qubit_gate nm q) = Inr {PInt q} \<and> card {PInt q} = 1)
   \<and> (\<forall>gs i j. i < length gs \<and> j < length gs \<and> gs ! i = gs ! j \<longrightarrow>
        deps_of (gs ! i) = deps_of (gs ! j))"
  by (auto simp add: deps_of_def getitem_def cnot_gate_def tof_gate_def single_qubit_gate_def)

theorem deps_of_content_witness:
  "deps_of (cnot_gate 0 1) = Inr {PInt 0, PInt 1}
   \<and> deps_of (tof_gate 0 1 2) = Inr {PInt 0, PInt 1, PInt 2}
   \<and> card {PInt 0, PInt 1, PInt 2} = 3
   \<and> deps_of (single_qubit_gate ''Tdg'' 5) = Inr {PInt 5}
   \<and> deps_of ([cnot_gate 0 1, single_qubit_gate ''X'' 2, cnot_gate 0 1] ! 0) =
       deps_of ([cnot_gate 0 1, single_qubit_gate ''X'' 2, cnot_gate 0 1] ! 2)"
  using deps_of_content [of 0 1 0 1 2 "''Tdg''" 5]
  by simp

section \<open>Decimal numerals\<close>

lemma below_ten_cases:
  "d < 10 \<Longrightarrow> d = 0 \<or> d = 1 \<or> d = 2 \<or> d = 3 \<or> d = 4 \<or> d = 5 \<or> d = 6 \<or> d = 7 \<or> d = 8 \<or> d = (9::nat)"
  by arith

lemma digit_char_is_digit: "d < 10 \<Longrightarrow> is_digit (digit_char d)"
  by (drule below_ten_cases) (auto simp: digit_char_def is_digit_def)

lemma digit_val_digit_char: "d < 10 \<Longrightarrow> digit_val (digit_char d) = d"
  by (drule below_ten_cases) (auto simp: digit_char_def digit_val_def)

lemma is_digit_not_linebreak: "is_digit c \<Longrightarrow> \<not> is_linebreak c"
  by (auto simp: is_digit_def is_linebreak_def)

lemma is_digit_not_minus: "is_digit c \<Longrightarrow> c \<noteq> CHR ''-''"
  by (auto simp: is_digit_def)

lemma show_nat_digits: "list_all is_digit (show_nat n)"
proof (induction n rule: show_nat.induct)
  case (1 n)
  show ?case
  proof (cases "n < 10")
    case True
    then show ?thesis
      by (simp add: show_nat.simps [of n] digit_char_is_digit)
  next
    case False
    with "1" show ?thesis
      by (simp add: show_nat.simps [of n] digit_char_is_digit)
  qed
qed

lemma show_nat_nonempty: "show_nat n \<noteq> []"
  by (simp add: show_nat.simps [of n])

lemma show_nat_val: "foldl (\<lambda>a c. 10 * a + digit_val c) 0 (show_nat n) = n"
proof (induction n rule: show_nat.induct)
  case (1 n)
  show ?case
  proof (cases "n < 10")
    case True
    then show ?thesis
      by (simp add: show_nat.simps [of n] digit_val_digit_char)
  next
    case False
    with "1" show ?thesis
      by (simp add: show_nat.simps [of n] digit_val_digit_char)
  qed
qed

lemma read_nat_show_nat:
  assumes "r = [] \<or> \<not> is_digit (hd r)"
  shows "read_nat (show_nat n @ r) = Some (n, r)"
proof -
  have all: "\<forall>c \<in> set (show_nat n). is_digit c"
    using show_nat_digits [of n] by (simp add: list_all_iff)
  have stop: "takeWhile is_digit r = []" "dropWhile is_digit r = r"
    using assms by (cases r; simp)+
  have tw: "takeWhile is_digit (show_nat n @ r) = show_nat n"
    using all stop by (simp add: takeWhile_append2)
  have dw: "dropWhile is_digit (show_nat n @ r) = r"
    using all stop by (simp add: dropWhile_append2)
  show ?thesis
    by (simp add: read_nat_def tw dw show_nat_nonempty show_nat_val)
qed

lemma read_int_show_int:
  assumes "r = [] \<or> \<not> is_digit (hd r)"
  shows "read_int (show_int i @ r) = Some (i, r)"
proof (cases "i < 0")
  case True
  then show ?thesis
    by (simp add: read_int_def show_int_def read_nat_show_nat [OF assms])
next
  case False
  obtain c cs where cs: "show_nat (nat i) = c # cs"
    using show_nat_nonempty [of "nat i"] by (cases "show_nat (nat i)") auto
  have "is_digit c"
    using show_nat_digits [of "nat i"] cs by simp
  then have "c \<noteq> CHR ''-''"
    by (rule is_digit_not_minus)
  moreover have "read_nat (c # cs @ r) = Some (nat i, r)"
    using read_nat_show_nat [OF assms, of "nat i"] cs by simp
  ultimately show ?thesis
    using False by (simp add: read_int_def show_int_def cs)
qed

lemma show_nat_no_linebreak: "list_all (\<lambda>c. \<not> is_linebreak c) (show_nat n)"
  using show_nat_digits [of n] by (auto simp: list_all_iff is_digit_not_linebreak)

lemma show_int_no_linebreak: "list_all (\<lambda>c. \<not> is_linebreak c) (show_int i)"
  using show_nat_no_linebreak by (simp add: show_int_def is_linebreak_def)

section \<open>Lines of a text\<close>

lemma splitlines_from_line:
  assumes "list_all (\<lambda>c. \<not> is_linebreak c) l"
  shows "splitlines_from cur (l @ CHR 0x0A # rest) = (cur @ l) # splitlines_from [] rest"
  using assms
proof (induction l arbitrary: cur)
  case Nil
  then show ?case by (simp add: is_linebreak_def)
next
  case (Cons c l)
  then have "c \<noteq> CHR 0x0D" "\<not> is_linebreak c"
    by (auto simp: is_linebreak_def)
  with Cons show ?case by simp
qed

lemma splitlines_unlines:
  assumes "list_all (list_all (\<lambda>c. \<not> is_linebreak c)) ls"
  shows "splitlines (unlines ls) = ls"
  using assms unfolding splitlines_def unlines_def
  by (induction ls) (simp_all add: splitlines_from_line)

lemma spec_line_no_linebreak: "list_all (\<lambda>c. \<not> is_linebreak c) (spec_line k)"
  using show_int_no_linebreak by (cases k) (simp_all add: is_linebreak_def)

lemma spec_lines_no_linebreak:
  "list_all (list_all (\<lambda>c. \<not> is_linebreak c)) (spec_lines n ks)"
proof -
  have "list_all (list_all (\<lambda>c. \<not> is_linebreak c)) (spec_header n)"
    using show_nat_no_linebreak [of n] by (simp add: spec_header_def is_linebreak_def)
  moreover have "list_all (list_all (\<lambda>c. \<not> is_linebreak c)) (map spec_line ks)"
    by (induction ks) (simp_all add: spec_line_no_linebreak)
  ultimately show ?thesis
    by (simp add: spec_lines_def)
qed

lemma splitlines_spec_lines: "splitlines (unlines (spec_lines n ks)) = spec_lines n ks"
  by (rule splitlines_unlines [OF spec_lines_no_linebreak])

section \<open>The exported text\<close>

lemma qasm_of_gate_record_of: "qasm_of_gate (record_of k) = Inr (spec_line k @ [CHR 0x0A])"
  by (cases k)
    (simp_all add: qasm_of_gate_def bind_err_def getitem_def tof_gate_def cnot_gate_def
      single_qubit_gate_def)

lemma to_qasm_loop_record_of:
  "to_qasm_loop (map record_of ks) s = Inr (s @ unlines (map spec_line ks))"
  by (induction ks arbitrary: s) (simp_all add: qasm_of_gate_record_of bind_err_def unlines_def)

lemma qasm_header_unlines: "qasm_header n = unlines (spec_header n)"
  by (simp add: qasm_header_def unlines_def spec_header_def)

lemma unlines_append: "unlines (xs @ ys) = unlines xs @ unlines ys"
  by (simp add: unlines_def)

lemma to_qasm_record_of:
  "to_qasm zx False \<lparr>n_qubits = n, gates = map record_of ks\<rparr> = Inr (unlines (spec_lines n ks))"
  by (simp add: to_qasm_def to_qasm_loop_record_of bind_err_def qasm_header_unlines
      unlines_append spec_lines_def)

section \<open>Reading the exported text\<close>

lemma read_qubit_show:
  "read_qubit (''q['' @ show_int i @ CHR '']'' # r) = Some (i, r)"
proof -
  have "read_int (show_int i @ CHR '']'' # r) = Some (i, CHR '']'' # r)"
    by (rule read_int_show_int) (simp add: is_digit_def)
  then show ?thesis
    by (simp add: read_qubit_def)
qed

lemma parse_qreg_show: "parse_qreg (''qreg q['' @ show_nat n @ ''];'') = Some n"
proof -
  have "read_nat (show_nat n @ ''];'') = Some (n, ''];'')"
    by (rule read_nat_show_nat) (simp add: is_digit_def)
  then show ?thesis
    by (simp add: parse_qreg_def)
qed

lemma parse_gate_line_spec_line: "parse_gate_line (spec_line k) = Some (parsed_of k)"
proof (cases k)
  case (K_Toffoli c1 c2 t)
  have "read_operands 3 (''q['' @ show_int c1 @ ''], q['' @ show_int c2 @ ''], q[''
          @ show_int t @ ''];'') = Some [c1, c2, t]"
    using read_qubit_show [of c1 "'', q['' @ show_int c2 @ ''], q['' @ show_int t @ ''];''"]
      read_qubit_show [of c2 "'', q['' @ show_int t @ ''];''"]
      read_qubit_show [of t "'';''"]
    by (simp add: eval_nat_numeral)
  then show ?thesis
    using K_Toffoli by (simp add: parse_gate_line_def)
next
  case (K_CNOT c t)
  have "read_operands 2 (''q['' @ show_int c @ ''], q['' @ show_int t @ ''];'') = Some [c, t]"
    using read_qubit_show [of c "'', q['' @ show_int t @ ''];''"]
      read_qubit_show [of t "'';''"]
    by (simp add: eval_nat_numeral)
  then show ?thesis
    using K_CNOT by (simp add: parse_gate_line_def)
next
  case (K_X t)
  then show ?thesis
    using read_qubit_show [of t "'';''"] by (simp add: parse_gate_line_def)
next
  case (K_Hadamard t)
  then show ?thesis
    using read_qubit_show [of t "'';''"] by (simp add: parse_gate_line_def)
next
  case (K_S t)
  then show ?thesis
    using read_qubit_show [of t "'';''"] by (simp add: parse_gate_line_def)
next
  case (K_T t)
  then show ?thesis
    using read_qubit_show [of t "'';''"] by (simp add: parse_gate_line_def)
next
  case (K_Tdg t)
  then show ?thesis
    using read_qubit_show [of t "'';''"] by (simp add: parse_gate_line_def)
qed

lemma parse_gate_lines_spec: "parse_gate_lines (map spec_line ks) = Some (map parsed_of ks)"
  by (induction ks) (simp_all add: parse_gate_line_spec_line)

lemma zx_from_qasm_spec:
  "zx_from_qasm (unlines (spec_lines n ks)) = Inr \<lparr>zx_qubits = n, zx_gates = map parsed_of ks\<rparr>"
  unfolding zx_from_qasm_def splitlines_spec_lines
  using parse_qreg_show [of n]
  by (simp add: spec_lines_def spec_header_def parse_gate_lines_spec)

lemma request_qubits_loop_count:
  "snd (request_qubits_loop k c) = c\<lparr>n_qubits := n_qubits c + k\<rparr>"
  by (induction k arbitrary: c) (simp_all add: request_qubit_def split_beta)

lemma replay_gate_parsed_of:
  assumes "toffoli_distinct k"
  shows "replay_gate (parsed_of k) c = Inr (append_gate (record_of k) c)"
  using assms
  by (cases k)
    (simp_all add: replay_gate_def bind_err_def getattr_def add_toffoli_def is_unique_distinct
      builder_defs)

lemma from_qasm_loop_parsed_of:
  assumes "list_all toffoli_distinct ks"
  shows "from_qasm_loop (map parsed_of ks) c = Inr (c\<lparr>gates := gates c @ map record_of ks\<rparr>)"
  using assms
proof (induction ks arbitrary: c)
  case Nil
  then show ?case by simp
next
  case (Cons k ks)
  then show ?case
    by (simp add: replay_gate_parsed_of bind_err_def append_gate_def)
qed

lemma from_qasm_spec:
  assumes "list_all toffoli_distinct ks"
  shows "from_qasm zx_from_qasm (unlines (spec_lines n ks)) =
           Inr \<lparr>n_qubits = n, gates = map record_of ks\<rparr>"
  using from_qasm_loop_parsed_of [OF assms]
  by (simp add: from_qasm_def zx_from_qasm_spec bind_err_def request_qubits_def
      request_qubits_loop_count new_circuit_def)

section \<open>The assembly codec\<close>

text \<open>
  Claim C5. For a circuit whose gate records are of the seven recognized kinds, the export
  without the optimizer is the three header lines (the version line, the include line and
  the register declaration with the circuit's qubit count) followed by one line per gate
  record, in the order of the sequence, with the mnemonics \<^verbatim>\<open>ccx\<close>, \<^verbatim>\<open>cx\<close>, \<^verbatim>\<open>x\<close>, \<^verbatim>\<open>h\<close>,
  \<^verbatim>\<open>s\<close>, \<^verbatim>\<open>t\<close>, \<^verbatim>\<open>tdg\<close>. The circuit with three qubits and the single gate
  Toffoli(0,1,2) exports to the four lines \<^verbatim>\<open>OPENQASM 2.0;\<close>, \<^verbatim>\<open>include "qelib1.inc";\<close>,
  \<^verbatim>\<open>qreg q[3];\<close>, \<^verbatim>\<open>ccx q[0], q[1], q[2];\<close>.
\<close>

theorem to_qasm_lines:
  "to_qasm zx False \<lparr>n_qubits = n, gates = map record_of ks\<rparr> =
     Inr (unlines (spec_lines n ks))
   \<and> splitlines (unlines (spec_lines n ks)) =
       [''OPENQASM 2.0;'',
        ''include '' @ [CHR 0x22] @ ''qelib1.inc'' @ [CHR 0x22] @ '';'',
        ''qreg q['' @ show_nat n @ ''];''] @ map spec_line ks
   \<and> to_qasm zx False
       (snd (add_toffoli 0 1 2 False False False (snd (request_qubits 3 new_circuit)))) =
     Inr (''OPENQASM 2.0;'' @ [CHR 0x0A]
          @ ''include '' @ [CHR 0x22] @ ''qelib1.inc'' @ [CHR 0x22] @ '';'' @ [CHR 0x0A]
          @ ''qreg q[3];'' @ [CHR 0x0A]
          @ ''ccx q[0], q[1], q[2];'' @ [CHR 0x0A])"
proof -
  have built3: "snd (add_toffoli 0 1 2 False False False (snd (request_qubits 3 new_circuit))) =
      \<lparr>n_qubits = 3, gates = map record_of [K_Toffoli 0 1 2]\<rparr>"
    by (simp add: add_toffoli_def is_unique_distinct builder_defs request_qubits_def
        request_qubits_loop_count new_circuit_def)
  have text3: "unlines (spec_lines 3 [K_Toffoli 0 1 2]) =
      ''OPENQASM 2.0;'' @ [CHR 0x0A]
          @ ''include '' @ [CHR 0x22] @ ''qelib1.inc'' @ [CHR 0x22] @ '';'' @ [CHR 0x0A]
          @ ''qreg q[3];'' @ [CHR 0x0A]
          @ ''ccx q[0], q[1], q[2];'' @ [CHR 0x0A]"
    by (simp add: unlines_def spec_lines_def spec_header_def show_int_def show_nat.simps
        digit_char_def)
  show ?thesis
    unfolding built3 to_qasm_record_of splitlines_spec_lines text3 [symmetric]
    by (simp add: spec_lines_def spec_header_def)
qed

text \<open>
  Claim C2. For a circuit with qubit count \<open>n\<close> whose \<open>N\<close> gate records are of the seven
  recognized kinds (a Toffoli record having pairwise distinct qubits, the invariant of the
  data model that \<^verbatim>\<open>add_toffoli\<close> asserts), the export without the optimizer succeeds with
  a text of exactly \<open>3 + N\<close> lines, and importing that text gives back the circuit: qubit
  count \<open>n\<close> and the same \<open>N\<close> records in the same order. The import calls the external
  parser, which is \<open>zx_from_qasm\<close> as modelled from the specification.
\<close>

theorem qasm_round_trip:
  assumes "list_all toffoli_distinct ks"
  shows "\<exists>qasm.
      to_qasm zx False \<lparr>n_qubits = n, gates = map record_of ks\<rparr> = Inr qasm
      \<and> length (splitlines qasm) = 3 + length ks
      \<and> from_qasm zx_from_qasm qasm = Inr \<lparr>n_qubits = n, gates = map record_of ks\<rparr>"
proof -
  have "length (spec_lines n ks) = 3 + length ks"
    by (simp add: spec_lines_def spec_header_def)
  then have "length (splitlines (unlines (spec_lines n ks))) = 3 + length ks"
    by (simp only: splitlines_spec_lines)
  then show ?thesis
    using to_qasm_record_of [of zx n ks] from_qasm_spec [OF assms, of n] by blast
qed

theorem qasm_round_trip_witness:
  "list_all toffoli_distinct [K_Toffoli 0 1 2, K_X 0, K_Tdg 1, K_CNOT 2 0]
   \<and> (\<exists>qasm.
      to_qasm (\<lambda>s. Inr s) False
        \<lparr>n_qubits = 3,
         gates = [tof_gate 0 1 2, single_qubit_gate ''X'' 0, single_qubit_gate ''Tdg'' 1,
                  cnot_gate 2 0]\<rparr> = Inr qasm
      \<and> length (splitlines qasm) = 7
      \<and> from_qasm zx_from_qasm qasm =
          Inr \<lparr>n_qubits = 3,
               gates = [tof_gate 0 1 2, single_qubit_gate ''X'' 0, single_qubit_gate ''Tdg'' 1,
                        cnot_gate 2 0]\<rparr>)"
  using qasm_round_trip [of "[K_Toffoli 0 1 2, K_X 0, K_Tdg 1, K_CNOT 2 0]" "\<lambda>s. Inr s" 3]
  by simp

lemma from_qasm_duplicate_toffoli:
  "to_qasm zx False \<lparr>n_qubits = 2, gates = [tof_gate 0 0 1]\<rparr> =
     Inr (unlines (spec_lines 2 [K_Toffoli 0 0 1]))
   \<and> from_qasm zx_from_qasm (unlines (spec_lines 2 [K_Toffoli 0 0 1])) = Inl AssertionError"
  using to_qasm_record_of [of zx 2 "[K_Toffoli 0 0 1]"]
  by (simp add: from_qasm_def zx_from_qasm_spec bind_err_def replay_gate_def getattr_def
      add_toffoli_def is_unique_distinct)

section \<open>Records of built circuits\<close>

lemma records_append:
  assumes "records_of_kinds c ks" "gates c' = gates c @ map record_of ks'"
    "list_all toffoli_distinct ks'"
  shows "records_of_kinds c' (ks @ ks')"
  using assms by (simp add: records_of_kinds_def)

lemma add_cnot_records:
  "gates (add_cnot ctrl target p c) =
     gates c @ map record_of (if p then [K_X ctrl, K_CNOT ctrl target, K_X ctrl]
                              else [K_CNOT ctrl target])"
  by (simp add: builder_defs)

lemma add_toffoli_records:
  "\<exists>ks'. gates (snd (add_toffoli c1 c2 target p1 p2 clean c)) = gates c @ map record_of ks'
     \<and> list_all toffoli_distinct ks'"
proof (cases "is_unique [c1, c2, target]")
  case False
  then have "gates (snd (add_toffoli c1 c2 target p1 p2 clean c)) = gates c @ map record_of []"
    by (simp add: add_toffoli_def)
  then show ?thesis
    by (intro exI [of _ "[]"]) simp
next
  case True
  then have d: "c1 \<noteq> c2" "c1 \<noteq> target" "c2 \<noteq> target"
    by (simp_all add: is_unique_distinct)
  define core where "core =
    (if clean then
       [K_Hadamard target, K_T target, K_CNOT c1 target, K_CNOT c2 target, K_CNOT target c2,
        K_CNOT target c1, K_Tdg c1, K_Tdg c2, K_T target, K_CNOT target c1, K_CNOT target c2,
        K_Hadamard target, K_S c1]
     else [K_Toffoli c1 c2 target])"
  define pre where "pre = (if p1 then [K_X c1] else []) @ (if p2 then [K_X c2] else [])"
  have "gates (snd (add_toffoli c1 c2 target p1 p2 clean c)) =
      gates c @ map record_of (pre @ core @ pre)"
    using True by (simp add: add_toffoli_def builder_defs core_def pre_def)
  moreover have "list_all toffoli_distinct (pre @ core @ pre)"
    using d by (simp add: core_def pre_def)
  ultimately show ?thesis
    by blast
qed

lemma add_mcx_records:
  "\<exists>ks'. gates (snd (add_mcx cs target ps clean c)) = gates c @ map record_of ks'
     \<and> list_all toffoli_distinct ks'"
proof -
  have nothing: "gates c = gates c @ map record_of [] \<and> list_all toffoli_distinct []"
    by simp
  consider (many) "\<not> length cs \<le> 2" | (one) "length cs = 1" | (two) "length cs = 2"
    | (none) "length cs = 0"
    by arith
  then show ?thesis
  proof cases
    case many
    then show ?thesis
      using nothing by (auto simp: add_mcx_def)
  next
    case one
    show ?thesis
    proof (cases ps)
      case Nil
      with one show ?thesis
        using nothing by (auto simp: add_mcx_def)
    next
      case (Cons p0 ps')
      define ks' where "ks' =
          (if p0 then [K_X (cs ! 0), K_CNOT (cs ! 0) target, K_X (cs ! 0)]
           else [K_CNOT (cs ! 0) target])"
      have "list_all toffoli_distinct ks'"
        by (simp add: ks'_def)
      moreover have "gates (snd (add_mcx cs target ps clean c)) = gates c @ map record_of ks'"
        using one Cons add_cnot_records [of "cs ! 0" target p0 c]
        by (simp add: add_mcx_def ks'_def)
      ultimately show ?thesis
        by blast
    qed
  next
    case two
    show ?thesis
    proof (cases ps)
      case Nil
      with two show ?thesis
        using nothing by (auto simp: add_mcx_def)
    next
      case (Cons p0 ps')
      show ?thesis
      proof (cases ps')
        case Nil
        with two Cons show ?thesis
          using nothing by (auto simp: add_mcx_def)
      next
        case (Cons p1 ps'')
        with two \<open>ps = p0 # ps'\<close> show ?thesis
          using add_toffoli_records [of "cs ! 0" "cs ! 1" target p0 p1 clean c]
          by (simp add: add_mcx_def)
      qed
    qed
  next
    case none
    then show ?thesis
      using nothing by (auto simp: add_mcx_def)
  qed
qed

lemma built_records: "built c \<Longrightarrow> \<exists>ks. records_of_kinds c ks"
proof (induction rule: built.induct)
  case built_new
  have "records_of_kinds new_circuit []"
    by (simp add: records_of_kinds_def new_circuit_def)
  then show ?case ..
next
  case (built_request_qubit c)
  then show ?case
    by (simp add: records_of_kinds_def request_qubit_def)
next
  case (built_x c target)
  from built_x.IH obtain ks where "records_of_kinds c ks" ..
  then have "records_of_kinds (add_x target c) (ks @ [K_X target])"
    by (rule records_append) (simp_all add: builder_defs)
  then show ?case ..
next
  case (built_h c target)
  from built_h.IH obtain ks where "records_of_kinds c ks" ..
  then have "records_of_kinds (add_h target c) (ks @ [K_Hadamard target])"
    by (rule records_append) (simp_all add: builder_defs)
  then show ?case ..
next
  case (built_s c target)
  from built_s.IH obtain ks where "records_of_kinds c ks" ..
  then have "records_of_kinds (add_s target c) (ks @ [K_S target])"
    by (rule records_append) (simp_all add: builder_defs)
  then show ?case ..
next
  case (built_t c target)
  from built_t.IH obtain ks where "records_of_kinds c ks" ..
  then have "records_of_kinds (add_t target c) (ks @ [K_T target])"
    by (rule records_append) (simp_all add: builder_defs)
  then show ?case ..
next
  case (built_tdg c target)
  from built_tdg.IH obtain ks where "records_of_kinds c ks" ..
  then have "records_of_kinds (add_tdg target c) (ks @ [K_Tdg target])"
    by (rule records_append) (simp_all add: builder_defs)
  then show ?case ..
next
  case (built_cnot c ctrl target p)
  from built_cnot.IH obtain ks where "records_of_kinds c ks" ..
  then have "records_of_kinds (add_cnot ctrl target p c)
      (ks @ (if p then [K_X ctrl, K_CNOT ctrl target, K_X ctrl] else [K_CNOT ctrl target]))"
    by (rule records_append) (simp_all add: add_cnot_records del: record_of.simps)
  then show ?case ..
next
  case (built_cz c ctrl target)
  from built_cz.IH obtain ks where "records_of_kinds c ks" ..
  then have "records_of_kinds (add_cz ctrl target c)
      (ks @ [K_Hadamard target, K_CNOT ctrl target, K_Hadamard target])"
    by (rule records_append) (simp_all add: add_cz_def builder_defs)
  then show ?case ..
next
  case (built_z c target)
  from built_z.IH obtain ks where "records_of_kinds c ks" ..
  then have "records_of_kinds (add_z target c)
      (ks @ [K_Hadamard target, K_X target, K_Hadamard target])"
    by (rule records_append) (simp_all add: add_z_def builder_defs)
  then show ?case ..
next
  case (built_toffoli c c1 c2 target p1 p2 clean)
  from built_toffoli.IH obtain ks where ks: "records_of_kinds c ks" ..
  obtain ks' where
    "gates (snd (add_toffoli c1 c2 target p1 p2 clean c)) = gates c @ map record_of ks'"
    "list_all toffoli_distinct ks'"
    using add_toffoli_records by blast
  with ks have "records_of_kinds (snd (add_toffoli c1 c2 target p1 p2 clean c)) (ks @ ks')"
    by (rule records_append)
  then show ?case ..
next
  case (built_mcx c cs target ps clean)
  from built_mcx.IH obtain ks where ks: "records_of_kinds c ks" ..
  obtain ks' where
    "gates (snd (add_mcx cs target ps clean c)) = gates c @ map record_of ks'"
    "list_all toffoli_distinct ks'"
    using add_mcx_records by blast
  with ks have "records_of_kinds (snd (add_mcx cs target ps clean c)) (ks @ ks')"
    by (rule records_append)
  then show ?case ..
qed

lemma built_round_trip:
  assumes "built c"
  shows "\<exists>qasm. to_qasm zx False c = Inr qasm
     \<and> length (splitlines qasm) = 3 + length (gates c)
     \<and> from_qasm zx_from_qasm qasm = Inr c"
proof -
  obtain ks where ks: "gates c = map record_of ks" "list_all toffoli_distinct ks"
    using built_records [OF assms] by (auto simp: records_of_kinds_def)
  have c: "c = \<lparr>n_qubits = n_qubits c, gates = map record_of ks\<rparr>"
    using ks(1) by simp
  have "length (spec_lines (n_qubits c) ks) = 3 + length (gates c)"
    by (simp add: spec_lines_def spec_header_def ks(1))
  then have "length (splitlines (unlines (spec_lines (n_qubits c) ks))) = 3 + length (gates c)"
    by (simp only: splitlines_spec_lines)
  moreover have "to_qasm zx False c = Inr (unlines (spec_lines (n_qubits c) ks))"
    using to_qasm_record_of [of zx "n_qubits c" ks] c by simp
  moreover have "from_qasm zx_from_qasm (unlines (spec_lines (n_qubits c) ks)) = Inr c"
    using from_qasm_spec [OF ks(2), of "n_qubits c"] c by simp
  ultimately show ?thesis
    by blast
qed

section \<open>The logic front end\<close>

lemmas str_defs = strip_def is_space_def str_split_def startswith_def replace_def endswith_def
  rstrip_def

lemma from_assignment_or:
  "from_assignment ''y = a | b'' True h =
     Inr (\<lparr>gate_type = ''&'', inputs = [''a'', ''b''], output = ''y'', data = length h\<rparr>,
          h @ [[''p1'' \<mapsto> True, ''p2'' \<mapsto> True, ''p3'' \<mapsto> True]])"
  by (simp add: from_assignment_def bind_err_def str_defs new_dict_def LogicGate_def)

lemma from_assignment_and:
  "from_assignment ''y = a & b'' map_or h =
     Inr (\<lparr>gate_type = ''&'', inputs = [''a'', ''b''], output = ''y'', data = length h\<rparr>,
          h @ [[''p1'' \<mapsto> False, ''p2'' \<mapsto> False, ''p3'' \<mapsto> False]])"
  by (simp add: from_assignment_def bind_err_def str_defs new_dict_def LogicGate_def)

lemma from_assignment_or_native:
  "from_assignment ''y = a | b'' False h =
     Inr (\<lparr>gate_type = ''|'', inputs = [''a'', ''b''], output = ''y'', data = length h\<rparr>,
          h @ [[''p1'' \<mapsto> False, ''p2'' \<mapsto> False, ''p3'' \<mapsto> False]])"
  by (simp add: from_assignment_def bind_err_def str_defs new_dict_def LogicGate_def)

lemma get_list_assign_or: "get_list ''assign y = a | b'' ''assign'' = Inr [''y = a | b'']"
  by (simp add: get_list_def bind_err_def str_defs)

lemma get_list_assign_and: "get_list ''assign y = a & b'' ''assign'' = Inr [''y = a & b'']"
  by (simp add: get_list_def bind_err_def str_defs)

lemma from_verilog_or:
  "from_verilog ''assign y = a | b;'' h =
     Inr (\<lparr>ntk_inputs = [], ntk_outputs = [],
           ntk_gates = [''y'' \<mapsto>
             \<lparr>gate_type = ''&'', inputs = [''a'', ''b''], output = ''y'', data = length h\<rparr>]\<rparr>,
          h @ [[''p1'' \<mapsto> True, ''p2'' \<mapsto> True, ''p3'' \<mapsto> True]])"
proof -
  have lines: "splitlines ''assign y = a | b;'' = [''assign y = a | b;'']"
    by (simp add: splitlines_def is_linebreak_def)
  have stmt: "strip ''assign y = a | b;'' = ''assign y = a | b;''"
    "rstrip ''assign y = a | b;'' '';'' = ''assign y = a | b''"
    by (simp_all add: str_defs)
  show ?thesis
    unfolding from_verilog_def lines
    by (simp add: stmt get_list_assign_or from_assignment_or bind_err_def startswith_def
        endswith_def)
qed

lemma from_verilog_and:
  "from_verilog
     (''input a, b;'' @ [CHR 0x0A] @ ''output y;'' @ [CHR 0x0A] @ ''assign y = a & b;''
      @ [CHR 0x0A]) h =
     Inr (\<lparr>ntk_inputs = [''a'', ''b''], ntk_outputs = [''y''],
           ntk_gates = [''y'' \<mapsto>
             \<lparr>gate_type = ''&'', inputs = [''a'', ''b''], output = ''y'', data = length h\<rparr>]\<rparr>,
          h @ [[''p1'' \<mapsto> False, ''p2'' \<mapsto> False, ''p3'' \<mapsto> False]])"
proof -
  have lines: "splitlines (''input a, b;'' @ [CHR 0x0A] @ ''output y;'' @ [CHR 0x0A]
      @ ''assign y = a & b;'' @ [CHR 0x0A]) = [''input a, b;'', ''output y;'', ''assign y = a & b;'']"
    by (simp add: splitlines_def is_linebreak_def)
  have stmt: "strip ''assign y = a & b;'' = ''assign y = a & b;''"
    "rstrip ''assign y = a & b;'' '';'' = ''assign y = a & b''"
    "strip ''input a, b;'' = ''input a, b;''"
    "rstrip ''input a, b;'' '';'' = ''input a, b''"
    "strip ''output y;'' = ''output y;''"
    "rstrip ''output y;'' '';'' = ''output y''"
    by (simp_all add: str_defs)
  have lists: "get_list ''input a, b'' ''input'' = Inr [''a'', ''b'']"
    "get_list ''output y'' ''output'' = Inr [''y'']"
    by (simp_all add: get_list_def bind_err_def str_defs)
  show ?thesis
    unfolding from_verilog_def lines
    by (simp add: stmt lists get_list_assign_and from_assignment_and bind_err_def startswith_def
        endswith_def)
qed

text \<open>
  Claim C9. Reading \<^verbatim>\<open>assign y = a | b;\<close> with the De Morgan rewrite enabled gives a single
  logic gate of the AND kind with inputs \<open>[a, b]\<close>, output \<open>y\<close> and the polarity data
  \<open>p1\<close>, \<open>p2\<close>, \<open>p3\<close> all true; reading \<^verbatim>\<open>assign y = a & b;\<close> gives a gate of the AND kind
  with the same inputs and output and \<open>p1\<close>, \<open>p2\<close>, \<open>p3\<close> all false. This holds for the
  statement read by \<^verbatim>\<open>from_verilog\<close> (which always enables the rewrite) and for its
  assignment text given to \<^verbatim>\<open>from_assignment\<close>, from any store \<open>h\<close>; the gate's data is
  the new dictionary at \<open>length h\<close>.
\<close>

theorem parse_assignment_polarity:
  "from_assignment ''y = a | b'' True h =
     Inr (\<lparr>gate_type = ''&'', inputs = [''a'', ''b''], output = ''y'', data = length h\<rparr>,
          h @ [[''p1'' \<mapsto> True, ''p2'' \<mapsto> True, ''p3'' \<mapsto> True]])
   \<and> from_verilog ''assign y = a | b;'' h =
     Inr (\<lparr>ntk_inputs = [], ntk_outputs = [],
           ntk_gates = [''y'' \<mapsto>
             \<lparr>gate_type = ''&'', inputs = [''a'', ''b''], output = ''y'', data = length h\<rparr>]\<rparr>,
          h @ [[''p1'' \<mapsto> True, ''p2'' \<mapsto> True, ''p3'' \<mapsto> True]])
   \<and> from_assignment ''y = a & b'' True h =
     Inr (\<lparr>gate_type = ''&'', inputs = [''a'', ''b''], output = ''y'', data = length h\<rparr>,
          h @ [[''p1'' \<mapsto> False, ''p2'' \<mapsto> False, ''p3'' \<mapsto> False]])
   \<and> from_verilog
        (''input a, b;'' @ [CHR 0x0A] @ ''output y;'' @ [CHR 0x0A] @ ''assign y = a & b;''
         @ [CHR 0x0A]) h =
     Inr (\<lparr>ntk_inputs = [''a'', ''b''], ntk_outputs = [''y''],
           ntk_gates = [''y'' \<mapsto>
             \<lparr>gate_type = ''&'', inputs = [''a'', ''b''], output = ''y'', data = length h\<rparr>]\<rparr>,
          h @ [[''p1'' \<mapsto> False, ''p2'' \<mapsto> False, ''p3'' \<mapsto> False]])
   \<and> is_and \<lparr>gate_type = ''&'', inputs = [''a'', ''b''], output = ''y'', data = length h\<rparr>
   \<and> dict_at (h @ [[''p1'' \<mapsto> True, ''p2'' \<mapsto> True, ''p3'' \<mapsto> True]]) (length h) =
       [''p1'' \<mapsto> True, ''p2'' \<mapsto> True, ''p3'' \<mapsto> True]
   \<and> dict_at (h @ [[''p1'' \<mapsto> False, ''p2'' \<mapsto> False, ''p3'' \<mapsto> False]]) (length h) =
       [''p1'' \<mapsto> False, ''p2'' \<mapsto> False, ''p3'' \<mapsto> False]"
  by (simp only: from_assignment_or from_assignment_and from_verilog_or from_verilog_and
      is_and_def dict_at_def nth_append_length logic_gate.simps simp_thms)

lemma from_assignment_plain:
  "from_assignment ''y = a'' map_or h = Inr (LogicGate ''='' [''a''] ''y'' None, h)"
  "from_assignment ''z = b'' map_or h = Inr (LogicGate ''='' [''b''] ''z'' None, h)"
  by (simp_all add: from_assignment_def bind_err_def str_defs)

text \<open>
  Claim C10. The claim is that records constructed without explicit data own separate
  data dictionaries. In the source the parameter \<^verbatim>\<open>data = {}\<close> has one default object:
  every gate constructed without \<^verbatim>\<open>data\<close> refers to the dictionary at \<open>default_data\<close>.
  The gates that \<^verbatim>\<open>from_assignment\<close> builds for \<^verbatim>\<open>y = a\<close> and \<^verbatim>\<open>z = b\<close> are such
  gates; storing a key through the data of the first changes what the data of the second
  reads, from the empty dictionary to the dictionary with that key.
\<close>

theorem default_data_shared:
  "data (LogicGate gt1 ins1 out1 None) = data (LogicGate gt2 ins2 out2 None)
   \<and> from_assignment ''y = a'' True initial_heap =
       Inr (LogicGate ''='' [''a''] ''y'' None, initial_heap)
   \<and> from_assignment ''z = b'' True initial_heap =
       Inr (LogicGate ''='' [''b''] ''z'' None, initial_heap)
   \<and> dict_at initial_heap (data (LogicGate ''='' [''b''] ''z'' None)) = Map.empty
   \<and> dict_at
        (dict_setitem (data (LogicGate ''='' [''a''] ''y'' None)) ''k'' True initial_heap)
        (data (LogicGate ''='' [''b''] ''z'' None)) = [''k'' \<mapsto> True]"
  by (simp add: from_assignment_plain LogicGate_def default_data_def initial_heap_def
      dict_at_def dict_setitem_def)

end
